theory Spec2Isabelle
  imports Complex_Main "HOL-Library.Multiset"
begin

section \<open>JavaScript values used by TldrawCanvas.tsx\<close>

text \<open>
  Numbers. The fields of the parsed document are finite numbers (or absent), modelled as
  \<open>real option\<close>. A value computed by the component can leave the finite numbers (a
  division by zero in the table decomposition), so the numbers written into a shape
  descriptor are \<open>num\<close>: a finite real, one of the two infinities, or NaN. Rounding,
  overflow and the sign of zero are not modelled; every zero divisor of the source is an
  array length, that is a positive zero.
\<close>

datatype num = Fin real | PosInf | NegInf | NaN

fun nadd :: "num \<Rightarrow> num \<Rightarrow> num" where
  "nadd NaN b = NaN"
| "nadd (Fin a) NaN = NaN"
| "nadd PosInf NaN = NaN"
| "nadd NegInf NaN = NaN"
| "nadd (Fin a) (Fin b) = Fin (a + b)"
| "nadd (Fin a) PosInf = PosInf"
| "nadd (Fin a) NegInf = NegInf"
| "nadd PosInf (Fin b) = PosInf"
| "nadd NegInf (Fin b) = NegInf"
| "nadd PosInf PosInf = PosInf"
| "nadd NegInf NegInf = NegInf"
| "nadd PosInf NegInf = NaN"
| "nadd NegInf PosInf = NaN"

fun nneg :: "num \<Rightarrow> num" where
  "nneg NaN = NaN"
| "nneg (Fin a) = Fin (- a)"
| "nneg PosInf = NegInf"
| "nneg NegInf = PosInf"

definition nsub :: "num \<Rightarrow> num \<Rightarrow> num" where
  "nsub a b = nadd a (nneg b)"

definition signed_inf :: "bool \<Rightarrow> num" where
  "signed_inf positive = (if positive then PosInf else NegInf)"

fun nmul :: "num \<Rightarrow> num \<Rightarrow> num" where
  "nmul NaN b = NaN"
| "nmul (Fin a) NaN = NaN"
| "nmul PosInf NaN = NaN"
| "nmul NegInf NaN = NaN"
| "nmul (Fin a) (Fin b) = Fin (a * b)"
| "nmul (Fin a) PosInf = (if a = 0 then NaN else signed_inf (0 < a))"
| "nmul (Fin a) NegInf = (if a = 0 then NaN else signed_inf (a < 0))"
| "nmul PosInf (Fin b) = (if b = 0 then NaN else signed_inf (0 < b))"
| "nmul NegInf (Fin b) = (if b = 0 then NaN else signed_inf (b < 0))"
| "nmul PosInf PosInf = PosInf"
| "nmul NegInf NegInf = PosInf"
| "nmul PosInf NegInf = NegInf"
| "nmul NegInf PosInf = NegInf"

fun ndiv :: "num \<Rightarrow> num \<Rightarrow> num" where
  "ndiv NaN b = NaN"
| "ndiv (Fin a) NaN = NaN"
| "ndiv PosInf NaN = NaN"
| "ndiv NegInf NaN = NaN"
| "ndiv (Fin a) (Fin b) =
     (if b = 0 then (if a = 0 then NaN else signed_inf (0 < a)) else Fin (a / b))"
| "ndiv (Fin a) PosInf = Fin 0"
| "ndiv (Fin a) NegInf = Fin 0"
| "ndiv PosInf (Fin b) = signed_inf (0 \<le> b)"
| "ndiv NegInf (Fin b) = signed_inf (b < 0)"
| "ndiv PosInf PosInf = NaN"
| "ndiv NegInf NegInf = NaN"
| "ndiv PosInf NegInf = NaN"
| "ndiv NegInf PosInf = NaN"

fun is_finite :: "num \<Rightarrow> bool" where
  "is_finite (Fin a) = True"
| "is_finite PosInf = False"
| "is_finite NegInf = False"
| "is_finite NaN = False"

text \<open>
  \<open>Math.PI\<close>, \<open>Math.cos\<close> and \<open>Math.sin\<close> are the real constant and functions; they
  have no code equations, the rest of the model computes.
\<close>

definition Math_PI :: real where
  "Math_PI = pi"

definition Math_cos :: "real \<Rightarrow> real" where
  "Math_cos = cos"

definition Math_sin :: "real \<Rightarrow> real" where
  "Math_sin = sin"

declare Math_PI_def [code del]

declare Math_cos_def [code del]

declare Math_sin_def [code del]

text \<open>\<open>v || d\<close> on an optional number: absent and 0 are falsy.\<close>

definition or_num :: "real option \<Rightarrow> real \<Rightarrow> real" where
  "or_num v d = (case v of None \<Rightarrow> d | Some n \<Rightarrow> if n = 0 then d else n)"

definition truthy_num :: "real option \<Rightarrow> bool" where
  "truthy_num v = (case v of None \<Rightarrow> False | Some n \<Rightarrow> n \<noteq> 0)"

text \<open>
  Strings are sequences of 8-bit code units. \<open>v || d\<close> on an optional string: absent and
  the empty string are falsy.
\<close>

definition truthy_str :: "string option \<Rightarrow> bool" where
  "truthy_str v = (case v of None \<Rightarrow> False | Some s \<Rightarrow> s \<noteq> [])"

definition or_str :: "string option \<Rightarrow> string option \<Rightarrow> string option" where
  "or_str v d = (if truthy_str v then v else d)"

fun startsWith :: "string \<Rightarrow> string \<Rightarrow> bool" where
  "startsWith s [] = True"
| "startsWith [] (p # ps) = False"
| "startsWith (c # cs) (p # ps) = (c = p \<and> startsWith cs ps)"

fun includes_str :: "string \<Rightarrow> string \<Rightarrow> bool" where
  "includes_str [] p = (p = [])"
| "includes_str (c # cs) p = (startsWith (c # cs) p \<or> includes_str cs p)"

definition lower_char :: "char \<Rightarrow> char" where
  "lower_char c =
     (let n = (of_char c :: nat)
      in if (65 \<le> n \<and> n \<le> 90) \<or> (192 \<le> n \<and> n \<le> 222 \<and> n \<noteq> 215)
         then char_of (n + 32) else c)"

definition toLowerCase :: "string \<Rightarrow> string" where
  "toLowerCase s = map lower_char s"

text \<open>White space and line terminators of \<open>String.prototype.trim\<close> below code unit 256.\<close>

definition is_ws :: "char \<Rightarrow> bool" where
  "is_ws c = ((of_char c :: nat) \<in> {9, 10, 11, 12, 13, 32, 160})"

definition trim :: "string \<Rightarrow> string" where
  "trim s = rev (dropWhile is_ws (rev (dropWhile is_ws s)))"

text \<open>A non-negative integer in a template literal: its decimal digits.\<close>

definition digit_char :: "nat \<Rightarrow> char" where
  "digit_char d = ''0123456789'' ! d"

function show_nat :: "nat \<Rightarrow> string" where
  "show_nat n = (if n < 10 then [digit_char n] else show_nat (n div 10) @ [digit_char (n mod 10)])"
  by pat_completeness auto
termination
  by (relation "measure id") auto

declare show_nat.simps [simp del]

definition show_int :: "int \<Rightarrow> string" where
  "show_int i = (if i < 0 then CHR ''-'' # show_nat (nat (- i)) else show_nat (nat i))"

definition createShapeId :: "string \<Rightarrow> string" where
  "createShapeId s = ''shape:'' @ s"

section \<open>The parsed document\<close>

record style =
  s_color :: "string option"
  s_backgroundColor :: "string option"
  s_borderColor :: "string option"
  s_fontSize :: "real option"
  s_fontFamily :: "string option"
  s_shapeType :: "string option"

record metadata =
  m_name :: "string option"
  m_shapeType :: "string option"
  m_preset :: "string option"
  m_imageUrl :: "string option"
  m_tableData :: "string list list option"
  m_rows :: "real option"
  m_cols :: "real option"
  m_hasHeader :: "bool option"

record component =
  c_id :: "string option"
  c_type :: string
  c_x :: "real option"
  c_y :: "real option"
  c_width :: "real option"
  c_height :: "real option"
  c_rotation :: "real option"
  c_zIndex :: "real option"
  c_content :: "string option"
  c_richText :: "string option"
  c_style :: "style option"
  c_metadata :: "metadata option"

record slide =
  sl_slideNumber :: int
  sl_name :: "string option"
  sl_components :: "component list"

text \<open>Optional chaining: \<open>component.style?.f\<close> and \<open>component.metadata?.f\<close>.\<close>

definition style_of :: "(style \<Rightarrow> 'a option) \<Rightarrow> component \<Rightarrow> 'a option" where
  "style_of f c = (case c_style c of None \<Rightarrow> None | Some s \<Rightarrow> f s)"

definition meta_of :: "(metadata \<Rightarrow> 'a option) \<Rightarrow> component \<Rightarrow> 'a option" where
  "meta_of f c = (case c_metadata c of None \<Rightarrow> None | Some m \<Rightarrow> f m)"

section \<open>Shape descriptors and editor calls\<close>

datatype palette =
  Black | Grey | LightViolet | Violet | Blue | LightBlue | Yellow | Orange | Green
  | LightGreen | LightRed | Red

datatype tlsize = SizeS | SizeM | SizeL | SizeXL

datatype tlfont = FontDraw | FontSans | FontSerif | FontMono

datatype tlfill = FillNone | FillSolid | FillPattern

datatype geo =
  Rectangle | Ellipse | Triangle | Diamond | Pentagon | Hexagon | Octagon | Star | Rhombus
  | Oval | Trapezoid | ArrowRight | ArrowLeft | ArrowUp | ArrowDown | XBox | CheckBox
  | Cloud | Heart

text \<open>
  The rich text of a text shape: the parser's own structure, passed through (opaque here),
  or \<open>toRichText\<close> of a plain string.
\<close>

datatype richText = ParserRichText string | ToRichText string

datatype props =
  FrameProps (p_w: num) (p_h: num) (p_name: string)
  | TextProps richText palette tlsize tlfont "bool option" "real option"
  | GeoProps geo palette tlfill tlsize num num
  | ImageProps string num num

datatype kind = KFrame | KText | KGeo | KImage

record descriptor =
  d_id :: string
  d_type :: kind
  d_x :: num
  d_y :: num
  d_rotation :: "num option"
  d_parentId :: "string option"
  d_props :: props

record asset =
  a_id :: string
  a_name :: string
  a_src :: string
  a_w :: real
  a_h :: real
  a_mimeType :: string

text \<open>
  One run is the sequence of calls it makes on the editor. \<open>AwaitIO\<close> marks an
  \<open>await\<close> on a promise of the platform (\<open>fetch\<close>, \<open>blob\<close>); the awaits on the
  builders' own promises only sequence the builders and leave no mark.
\<close>

datatype call =
  DeleteAllShapes | CreateShape descriptor | CreateAssets asset | AwaitIO | ZoomToFit

fun shapes_of :: "call list \<Rightarrow> descriptor list" where
  "shapes_of [] = []"
| "shapes_of (CreateShape d # cs) = d # shapes_of cs"
| "shapes_of (c # cs) = shapes_of cs"

fun assets_of :: "call list \<Rightarrow> asset list" where
  "assets_of [] = []"
| "assets_of (CreateAssets a # cs) = a # assets_of cs"
| "assets_of (c # cs) = assets_of cs"

fun awaits_of :: "call list \<Rightarrow> nat" where
  "awaits_of [] = 0"
| "awaits_of (AwaitIO # cs) = Suc (awaits_of cs)"
| "awaits_of (c # cs) = awaits_of cs"

text \<open>
  The platform: \<open>fetchBlob url\<close> is what \<open>await fetch(url)\<close> followed by
  \<open>await response.blob()\<close> gives for a data URL: the first throws, the second throws,
  or a blob with its MIME type;
  \<open>createId k\<close> is the identifier that the \<open>k\<close>-th call of
  \<open>AssetRecordType.createId\<close> returns in this run.
\<close>

datatype fetched = FetchThrows | BlobThrows | Blob string

record platform =
  fetchBlob :: "string \<Rightarrow> fetched"
  createId :: "nat \<Rightarrow> string"

section \<open>Geometry shared by the builders\<close>

text \<open>\<open>frameId ? (component.x || 0) * scale : frameX + (component.x || 0) * scale\<close>, scale 1.\<close>

definition place :: "string option \<Rightarrow> real \<Rightarrow> real option \<Rightarrow> real" where
  "place frameId frameOrigin v =
     (if truthy_str frameId then or_num v 0 * 1 else frameOrigin + or_num v 0 * 1)"

text \<open>\<open>component.rotation ? (component.rotation * Math.PI) / 180 : 0\<close>\<close>

definition rotationRad :: "component \<Rightarrow> real" where
  "rotationRad c =
     (if truthy_num (c_rotation c) then (the (c_rotation c) * Math_PI) / 180 else 0)"

text \<open>\<open>component.id || index\<close> inside a template literal.\<close>

definition idOrIndex :: "component \<Rightarrow> nat \<Rightarrow> string" where
  "idOrIndex c index = (if truthy_str (c_id c) then the (c_id c) else show_nat index)"

definition with_parent :: "string option \<Rightarrow> descriptor \<Rightarrow> descriptor" where
  "with_parent frameId d = (if truthy_str frameId then d\<lparr>d_parentId := frameId\<rparr> else d)"

section \<open>renderTextComponent\<close>

text \<open>The corner of a rotated text box (lines 169 to 188): only taken when the rotation is truthy.\<close>

definition textCorner :: "component \<Rightarrow> real \<Rightarrow> real \<Rightarrow> real \<times> real" where
  "textCorner c x y =
     (if truthy_num (c_rotation c) \<and> the (c_rotation c) \<noteq> 0 then
        (let width = or_num (c_width c) 0;
             height = or_num (c_height c) 0;
             angleRad = (the (c_rotation c) * Math_PI) / 180;
             originalCenterX = x + width / 2;
             originalCenterY = y + height / 2;
             newX = originalCenterX - (width / 2) * Math_cos angleRad
                      + (height / 2) * Math_sin angleRad;
             newY = originalCenterY - (width / 2) * Math_sin angleRad
                      - (height / 2) * Math_cos angleRad
         in (newX, newY))
      else (x, y))"

definition tldrawSize :: "component \<Rightarrow> tlsize" where
  "tldrawSize c =
     (if truthy_num (style_of s_fontSize c) then
        (let fontSize = the (style_of s_fontSize c)
         in if fontSize \<le> 10 then SizeS
            else if fontSize \<le> 13 then SizeS
            else if fontSize \<le> 18 then SizeM
            else if fontSize \<le> 23 then SizeL
            else SizeXL)
      else SizeM)"

definition tldrawColor :: "component \<Rightarrow> palette" where
  "tldrawColor c =
     (if truthy_str (style_of s_color c) then
        (let hexColor = toLowerCase (the (style_of s_color c))
         in if hexColor = ''#000000'' then Black
            else if hexColor = ''#e97132'' then Orange
            else if hexColor = ''#4ea72e'' then Green
            else if startsWith hexColor ''#ff'' \<or> startsWith hexColor ''#e''
                    \<or> startsWith hexColor ''#d'' then
              (if includes_str hexColor ''7'' \<or> includes_str hexColor ''8''
                  \<or> includes_str hexColor ''9'' then Orange
               else Red)
            else if startsWith hexColor ''#4''
                    \<or> (startsWith hexColor ''#0'' \<and> includes_str hexColor ''a'') then Green
            else if startsWith hexColor ''#0'' then Blue
            else Black)
      else Black)"

definition tldrawFont :: "component \<Rightarrow> tlfont" where
  "tldrawFont c =
     (if truthy_str (style_of s_fontFamily c) then
        (let fontFamily = toLowerCase (the (style_of s_fontFamily c))
         in if includes_str fontFamily ''times'' \<or> includes_str fontFamily ''georgia''
               \<or> includes_str fontFamily ''serif'' then FontSerif
            else if includes_str fontFamily ''courier'' \<or> includes_str fontFamily ''consolas''
                    \<or> includes_str fontFamily ''monaco'' \<or> includes_str fontFamily ''mono''
            then FontMono
            else if includes_str fontFamily ''comic'' \<or> includes_str fontFamily ''marker''
                    \<or> includes_str fontFamily ''sketch'' then FontDraw
            else FontSans)
      else FontSans)"

definition richTextContent :: "component \<Rightarrow> richText" where
  "richTextContent c =
     (case c_richText c of
        Some r \<Rightarrow> ParserRichText r
      | None \<Rightarrow> ToRichText (the (or_str (c_content c) (Some ''Sample text''))))"

definition renderTextComponent ::
  "component \<Rightarrow> nat \<Rightarrow> real \<Rightarrow> real \<Rightarrow> nat \<Rightarrow> string option \<Rightarrow> call list" where
  "renderTextComponent c index frameX frameY slideIndex frameId =
     (let shapeId = createShapeId (''text-'' @ show_nat slideIndex @ ''-'' @ idOrIndex c index);
          x = place frameId frameX (c_x c);
          y = place frameId frameY (c_y c);
          (x', y') = textCorner c x y;
          shapeProps = \<lparr> d_id = shapeId, d_type = KText, d_x = Fin x', d_y = Fin y',
            d_rotation = Some (Fin (rotationRad c)), d_parentId = None,
            d_props = TextProps (richTextContent c) (tldrawColor c) (tldrawSize c) (tldrawFont c)
              (Some (\<not> truthy_num (c_width c)))
              (if truthy_num (c_width c) then c_width c else None) \<rparr>
      in [CreateShape (with_parent frameId shapeProps)])"

section \<open>renderShapeComponent\<close>

text \<open>Lines 302 to 335: the cascade on \<open>backgroundColor\<close>.\<close>

definition fillColor :: "component \<Rightarrow> palette" where
  "fillColor c =
     (if truthy_str (style_of s_backgroundColor c)
         \<and> the (style_of s_backgroundColor c) \<noteq> ''transparent'' then
        (let hexColor = toLowerCase (the (style_of s_backgroundColor c))
         in if hexColor = ''#000000'' then Black
            else if hexColor = ''#ffffff'' then Grey
            else if hexColor = ''#ed7d31'' then Orange
            else if hexColor = ''#4472c4'' then Blue
            else if hexColor = ''#5b9bd5'' then LightBlue
            else if hexColor = ''#70ad47'' then Green
            else if hexColor = ''#ffc000'' then Yellow
            else if hexColor = ''#c55a5a'' then Red
            else if startsWith hexColor ''#ed'' \<or> startsWith hexColor ''#e9''
                    \<or> (startsWith hexColor ''#f'' \<and> \<not> includes_str hexColor ''ff'') then Orange
            else if startsWith hexColor ''#44'' \<or> startsWith hexColor ''#45'' then Blue
            else if startsWith hexColor ''#5b'' \<or> startsWith hexColor ''#5a'' then LightBlue
            else if startsWith hexColor ''#70'' \<or> startsWith hexColor ''#6''
                    \<or> startsWith hexColor ''#4e'' then Green
            else if startsWith hexColor ''#ff'' \<and> includes_str hexColor ''c'' then Yellow
            else if startsWith hexColor ''#ff'' \<and> \<not> includes_str hexColor ''c'' then Red
            else if startsWith hexColor ''#c5'' \<or> includes_str hexColor ''red'' then Red
            else if startsWith hexColor ''#e7'' \<or> startsWith hexColor ''#a5'' then Grey
            else if startsWith hexColor ''#4'' then Blue
            else if startsWith hexColor ''#5'' then LightBlue
            else if startsWith hexColor ''#7'' \<or> startsWith hexColor ''#6'' then Green
            else if startsWith hexColor ''#e'' \<or> startsWith hexColor ''#f'' then Orange
            else Grey)
      else Grey)"

text \<open>Lines 337 to 370: the cascade on \<open>borderColor\<close>.\<close>

definition strokeColor :: "component \<Rightarrow> palette" where
  "strokeColor c =
     (if truthy_str (style_of s_borderColor c)
         \<and> the (style_of s_borderColor c) \<noteq> ''transparent'' then
        (let hexColor = toLowerCase (the (style_of s_borderColor c))
         in if hexColor = ''#000000'' then Black
            else if hexColor = ''#ffffff'' then Grey
            else if hexColor = ''#ed7d31'' then Orange
            else if hexColor = ''#4472c4'' then Blue
            else if hexColor = ''#5b9bd5'' then LightBlue
            else if hexColor = ''#70ad47'' then Green
            else if hexColor = ''#ffc000'' then Yellow
            else if hexColor = ''#c55a5a'' then Red
            else if startsWith hexColor ''#ed'' \<or> startsWith hexColor ''#e9''
                    \<or> (startsWith hexColor ''#f'' \<and> \<not> includes_str hexColor ''ff'') then Orange
            else if startsWith hexColor ''#44'' \<or> startsWith hexColor ''#45'' then Blue
            else if startsWith hexColor ''#5b'' \<or> startsWith hexColor ''#5a'' then LightBlue
            else if startsWith hexColor ''#70'' \<or> startsWith hexColor ''#6''
                    \<or> startsWith hexColor ''#4e'' then Green
            else if startsWith hexColor ''#ff'' \<and> includes_str hexColor ''c'' then Yellow
            else if startsWith hexColor ''#ff'' \<and> \<not> includes_str hexColor ''c'' then Red
            else if startsWith hexColor ''#c5'' \<or> includes_str hexColor ''red'' then Red
            else if startsWith hexColor ''#e7'' \<or> startsWith hexColor ''#a5'' then Grey
            else if startsWith hexColor ''#4'' then Blue
            else if startsWith hexColor ''#5'' then LightBlue
            else if startsWith hexColor ''#7'' \<or> startsWith hexColor ''#6'' then Green
            else if startsWith hexColor ''#e'' \<or> startsWith hexColor ''#f'' then Orange
            else Black)
      else Black)"

definition shapeTypeName :: "component \<Rightarrow> string" where
  "shapeTypeName c =
     the (or_str (style_of s_shapeType c)
           (or_str (meta_of m_shapeType c)
             (or_str (meta_of m_preset c) (Some ''rectangle''))))"

definition geoType :: "component \<Rightarrow> geo" where
  "geoType c =
     (let shapeType = shapeTypeName c
      in if shapeType \<in> set [''rect'', ''rectangle''] then Rectangle
         else if shapeType \<in> set [''ellipse'', ''oval''] then Ellipse
         else if shapeType \<in> set [''triangle'', ''rtTriangle''] then Triangle
         else if shapeType = ''diamond'' then Diamond
         else if shapeType = ''pentagon'' then Pentagon
         else if shapeType = ''hexagon'' then Hexagon
         else if shapeType = ''octagon'' then Octagon
         else if shapeType \<in> set [''star4'', ''star5'', ''star6'', ''star8'', ''star10'',
                   ''star12'', ''star16'', ''star24'', ''star32'', ''4-point star'',
                   ''5-point star'', ''6-point star'', ''8-point star'', ''10-point star'',
                   ''12-point star'', ''16-point star'', ''24-point star'', ''32-point star'']
         then Star
         else if shapeType \<in> set [''rightArrow'', ''right arrow''] then ArrowRight
         else if shapeType \<in> set [''leftArrow'', ''left arrow''] then ArrowLeft
         else if shapeType \<in> set [''upArrow'', ''up arrow''] then ArrowUp
         else if shapeType \<in> set [''downArrow'', ''down arrow''] then ArrowDown
         else if shapeType = ''trapezoid'' then Trapezoid
         else if shapeType = ''cloud'' then Cloud
         else if shapeType = ''heart'' then Heart
         else Rectangle)"

definition finalColor :: "component \<Rightarrow> palette" where
  "finalColor c = (if fillColor c = Grey then strokeColor c else fillColor c)"

definition finalFill :: "component \<Rightarrow> tlfill" where
  "finalFill c =
     (if truthy_str (style_of s_backgroundColor c)
         \<and> the (style_of s_backgroundColor c) \<noteq> ''transparent''
      then FillSolid else FillNone)"

definition renderShapeComponent ::
  "component \<Rightarrow> nat \<Rightarrow> real \<Rightarrow> real \<Rightarrow> nat \<Rightarrow> string option \<Rightarrow> call list" where
  "renderShapeComponent c index frameX frameY slideIndex frameId =
     (let shapeId = createShapeId (''shape-'' @ show_nat slideIndex @ ''-'' @ idOrIndex c index);
          x = place frameId frameX (c_x c);
          y = place frameId frameY (c_y c);
          width = or_num (c_width c) 100 * 1;
          height = or_num (c_height c) 100 * 1;
          geoShapeProps = \<lparr> d_id = shapeId, d_type = KGeo, d_x = Fin x, d_y = Fin y,
            d_rotation = Some (Fin (rotationRad c)), d_parentId = None,
            d_props = GeoProps (geoType c) (finalColor c) (finalFill c) SizeM
              (Fin width) (Fin height) \<rparr>
      in [CreateShape (with_parent frameId geoShapeProps)])"

section \<open>renderImageComponent\<close>

text \<open>
  The placeholder rectangle. The source builds it twice, in the \<open>catch\<close> block (lines
  569 to 588) and in the \<open>else\<close> branch (lines 593 to 612), with the same fields; it
  has no rotation field.
\<close>

definition placeholderRect ::
  "component \<Rightarrow> nat \<Rightarrow> nat \<Rightarrow> string option \<Rightarrow> real \<Rightarrow> real \<Rightarrow> real \<Rightarrow> real \<Rightarrow> descriptor" where
  "placeholderRect c index slideIndex frameId x y width height =
     with_parent frameId
       \<lparr> d_id = createShapeId (''placeholder-'' @ show_nat slideIndex @ ''-'' @ idOrIndex c index),
         d_type = KGeo, d_x = Fin x, d_y = Fin y, d_rotation = None, d_parentId = None,
         d_props = GeoProps Rectangle Grey FillPattern SizeM (Fin width) (Fin height) \<rparr>"

text \<open>
  The second component of the result counts the calls of \<open>AssetRecordType.createId\<close>
  made so far in the run.
\<close>

definition renderImageComponent ::
  "platform \<Rightarrow> component \<Rightarrow> nat \<Rightarrow> real \<Rightarrow> real \<Rightarrow> nat \<Rightarrow> string option \<Rightarrow> nat
     \<Rightarrow> call list \<times> nat" where
  "renderImageComponent env c index frameX frameY slideIndex frameId n =
     (let imageId = createShapeId (''image-'' @ show_nat slideIndex @ ''-'' @ idOrIndex c index);
          x = place frameId frameX (c_x c);
          y = place frameId frameY (c_y c);
          width = or_num (c_width c) 200;
          height = or_num (c_height c) 150
      in if truthy_str (meta_of m_imageUrl c)
            \<and> startsWith (the (meta_of m_imageUrl c)) ''data:'' then
           (let dataUrl = the (meta_of m_imageUrl c)
            in case fetchBlob env dataUrl of
                 FetchThrows \<Rightarrow>
                   ([AwaitIO,
                     CreateShape (placeholderRect c index slideIndex frameId x y width height)], n)
               | BlobThrows \<Rightarrow>
                   ([AwaitIO, AwaitIO,
                     CreateShape (placeholderRect c index slideIndex frameId x y width height)], n)
               | Blob mimeType \<Rightarrow>
                   (let assetId = createId env n;
                        imageShapeProps = \<lparr> d_id = imageId, d_type = KImage, d_x = Fin x,
                          d_y = Fin y, d_rotation = Some (Fin (rotationRad c)),
                          d_parentId = None,
                          d_props = ImageProps assetId (Fin width) (Fin height) \<rparr>
                    in ([AwaitIO, AwaitIO,
                         CreateAssets \<lparr> a_id = assetId,
                           a_name = the (or_str (meta_of m_name c) (Some ''image'')),
                           a_src = dataUrl, a_w = width, a_h = height,
                           a_mimeType = mimeType \<rparr>,
                         CreateShape (with_parent frameId imageShapeProps)], Suc n)))
         else ([CreateShape (placeholderRect c index slideIndex frameId x y width height)], n))"

section \<open>renderTableComponent\<close>

text \<open>\<open>tableData[0]?.length || 0\<close>\<close>

definition firstRowLength :: "string list list \<Rightarrow> nat" where
  "firstRowLength tableData = (case tableData of [] \<Rightarrow> 0 | row # rest \<Rightarrow> length row)"

definition tableDataOf :: "component \<Rightarrow> string list list" where
  "tableDataOf c = (case meta_of m_tableData c of None \<Rightarrow> [] | Some t \<Rightarrow> t)"

definition tableRows :: "component \<Rightarrow> real" where
  "tableRows c = or_num (meta_of m_rows c) (real (length (tableDataOf c)))"

definition tableCols :: "component \<Rightarrow> real" where
  "tableCols c = or_num (meta_of m_cols c) (real (firstRowLength (tableDataOf c)))"

definition cellWidth :: "component \<Rightarrow> num" where
  "cellWidth c = ndiv (Fin (or_num (c_width c) 300)) (Fin (tableCols c))"

definition cellHeight :: "component \<Rightarrow> num" where
  "cellHeight c = ndiv (Fin (or_num (c_height c) 150)) (Fin (tableRows c))"

definition tableCellId :: "component \<Rightarrow> nat \<Rightarrow> nat \<Rightarrow> string \<Rightarrow> nat \<Rightarrow> nat \<Rightarrow> string" where
  "tableCellId c index slideIndex part rowIndex colIndex =
     createShapeId (''table-'' @ show_nat slideIndex @ ''-'' @ idOrIndex c index @ ''-cell-''
       @ part @ ''-'' @ show_nat rowIndex @ ''-'' @ show_nat colIndex)"

text \<open>The body of the inner \<open>forEach\<close> (lines 653 to 722): one cell of one row.\<close>

definition renderCell ::
  "component \<Rightarrow> nat \<Rightarrow> nat \<Rightarrow> string option \<Rightarrow> real \<Rightarrow> real \<Rightarrow> nat \<Rightarrow> nat \<Rightarrow> string
     \<Rightarrow> call list" where
  "renderCell c index slideIndex frameId tableX tableY rowIndex colIndex cellContent =
     (let cellX = nadd (Fin tableX) (nmul (Fin (real colIndex)) (cellWidth c));
          cellY = nadd (Fin tableY) (nmul (Fin (real rowIndex)) (cellHeight c));
          cellRectId = tableCellId c index slideIndex ''bg'' rowIndex colIndex;
          isHeader = (rowIndex = 0 \<and> meta_of m_hasHeader c = Some True);
          fillColor = (if isHeader then Blue else LightBlue);
          cellRectProps = \<lparr> d_id = cellRectId, d_type = KGeo, d_x = cellX, d_y = cellY,
            d_rotation = None, d_parentId = None,
            d_props = GeoProps Rectangle fillColor FillSolid SizeS (cellWidth c) (cellHeight c) \<rparr>;
          cellTextProps = \<lparr> d_id = tableCellId c index slideIndex ''text'' rowIndex colIndex,
            d_type = KText, d_x = nadd cellX (Fin 8),
            d_y = nsub (nadd cellY (ndiv (cellHeight c) (Fin 2))) (Fin 6),
            d_rotation = None, d_parentId = None,
            d_props = TextProps (ToRichText cellContent) Black SizeS FontSans None None \<rparr>
      in CreateShape (with_parent frameId cellRectProps)
         # (if cellContent \<noteq> [] \<and> trim cellContent \<noteq> []
            then [CreateShape (with_parent frameId cellTextProps)] else []))"

definition renderTableComponent ::
  "component \<Rightarrow> nat \<Rightarrow> real \<Rightarrow> real \<Rightarrow> nat \<Rightarrow> string option \<Rightarrow> call list" where
  "renderTableComponent c index frameX frameY slideIndex frameId =
     (let tableData = tableDataOf c
      in if length tableData = 0 then []
         else
           (let tableX = place frameId frameX (c_x c);
                tableY = place frameId frameY (c_y c)
            in concat (map (\<lambda>(rowIndex, row).
                 concat (map (\<lambda>(colIndex, cellContent).
                   renderCell c index slideIndex frameId tableX tableY rowIndex colIndex
                     cellContent) (enumerate 0 row))) (enumerate 0 tableData))))"

section \<open>drawComponentsInFrame\<close>

text \<open>\<open>[...components].sort((a, b) => (a.zIndex ?? 0) - (b.zIndex ?? 0))\<close>: a stable sort.\<close>

definition zKey :: "component \<Rightarrow> real" where
  "zKey c = (case c_zIndex c of None \<Rightarrow> 0 | Some z \<Rightarrow> z)"

definition sortedComponents :: "component list \<Rightarrow> component list" where
  "sortedComponents components = sort_key zKey components"

definition renderComponent ::
  "platform \<Rightarrow> component \<Rightarrow> nat \<Rightarrow> real \<Rightarrow> real \<Rightarrow> nat \<Rightarrow> string option \<Rightarrow> nat
     \<Rightarrow> call list \<times> nat" where
  "renderComponent env c index frameX frameY slideIndex frameId n =
     (if c_type c = ''text'' then
        (renderTextComponent c index frameX frameY slideIndex frameId, n)
      else if c_type c = ''shape'' then
        (renderShapeComponent c index frameX frameY slideIndex frameId, n)
      else if c_type c = ''image'' then
        renderImageComponent env c index frameX frameY slideIndex frameId n
      else if c_type c = ''table'' then
        (renderTableComponent c index frameX frameY slideIndex frameId, n)
      else ([], n))"

text \<open>The loop of lines 136 to 155, from position \<open>index\<close> of the sorted list on.\<close>

fun renderFrom ::
  "platform \<Rightarrow> component list \<Rightarrow> nat \<Rightarrow> real \<Rightarrow> real \<Rightarrow> nat \<Rightarrow> string option \<Rightarrow> nat
     \<Rightarrow> call list \<times> nat" where
  "renderFrom env [] index frameX frameY slideIndex frameId n = ([], n)"
| "renderFrom env (c # cs) index frameX frameY slideIndex frameId n =
     (let (calls, n') = renderComponent env c index frameX frameY slideIndex frameId n;
          (calls', n'') = renderFrom env cs (Suc index) frameX frameY slideIndex frameId n'
      in (calls @ calls', n''))"

definition drawComponentsInFrame ::
  "platform \<Rightarrow> component list \<Rightarrow> real \<Rightarrow> real \<Rightarrow> nat \<Rightarrow> string option \<Rightarrow> nat
     \<Rightarrow> call list \<times> nat" where
  "drawComponentsInFrame env components frameX frameY slideIndex frameId n =
     renderFrom env (sortedComponents components) 0 frameX frameY slideIndex frameId n"

section \<open>drawSlides and drawComponents\<close>

definition calculateComponentBounds :: "component list \<Rightarrow> real \<times> real" where
  "calculateComponentBounds components =
     (if length components = 0 then (0, 0)
      else foldl (\<lambda>(maxX, maxY) comp.
             (let compMaxX = or_num (c_x comp) 0 + or_num (c_width comp) 0;
                  compMaxY = or_num (c_y comp) 0 + or_num (c_height comp) 0
              in (if compMaxX > maxX then compMaxX else maxX,
                  if compMaxY > maxY then compMaxY else maxY)))
           (0, 0) components)"

text \<open>Lines 41 to 49: the uniform frame size.\<close>

definition maxSlideSize :: "slide list \<Rightarrow> real \<times> real" where
  "maxSlideSize slides =
     foldl (\<lambda>(maxSlideWidth, maxSlideHeight) slide.
        (let (maxX, maxY) = calculateComponentBounds (sl_components slide)
         in (max maxSlideWidth (maxX + 50), max maxSlideHeight (maxY + 50))))
       (1280, 720) slides"

definition frameName :: "slide \<Rightarrow> string" where
  "frameName slide =
     the (or_str (sl_name slide) (Some (''Slide '' @ show_int (sl_slideNumber slide))))"

text \<open>The loop of lines 53 to 84, from slide \<open>slideIndex\<close> on.\<close>

fun drawFrom :: "platform \<Rightarrow> real \<times> real \<Rightarrow> slide list \<Rightarrow> nat \<Rightarrow> nat \<Rightarrow> call list \<times> nat" where
  "drawFrom env frameSize [] slideIndex n = ([], n)"
| "drawFrom env frameSize (slide # rest) slideIndex n =
     (let slideWidth = fst frameSize;
          slideHeight = snd frameSize;
          col = slideIndex mod 4;
          row = slideIndex div 4;
          slideX = real col * (slideWidth + 200) + 50;
          slideY = real row * (slideHeight + 200) + 50;
          frameId = createShapeId (''slide-frame-'' @ show_nat slideIndex);
          frame = \<lparr> d_id = frameId, d_type = KFrame, d_x = Fin slideX, d_y = Fin slideY,
            d_rotation = None, d_parentId = None,
            d_props = FrameProps (Fin slideWidth) (Fin slideHeight) (frameName slide) \<rparr>;
          (calls, n') = drawComponentsInFrame env (sl_components slide) slideX slideY slideIndex
                          (Some frameId) n;
          (calls', n'') = drawFrom env frameSize rest (Suc slideIndex) n'
      in (CreateShape frame # calls @ calls', n''))"

definition drawSlides :: "platform \<Rightarrow> slide list \<Rightarrow> call list" where
  "drawSlides env slides =
     (if length slides = 0 then []
      else DeleteAllShapes # fst (drawFrom env (maxSlideSize slides) slides 0 0) @ [ZoomToFit])"

definition drawComponents :: "platform \<Rightarrow> component list \<Rightarrow> call list" where
  "drawComponents env components =
     (if length components = 0 then []
      else DeleteAllShapes # fst (drawComponentsInFrame env components 0 0 0 None 0)
           @ [ZoomToFit])"

text \<open>
  \<open>handleMount\<close> and the redraw effect (lines 15 to 23 and 729 to 738): slides when there
  are some, the components alone otherwise.
\<close>

definition handleMount :: "platform \<Rightarrow> component list \<Rightarrow> slide list option \<Rightarrow> call list" where
  "handleMount env components slides =
     (if slides \<noteq> None \<and> length (the slides) > 0 then drawSlides env (the slides)
      else if length components > 0 then drawComponents env components
      else [])"

section \<open>Notions used to state the properties\<close>

subsection \<open>Frames and their size\<close>

text \<open>The right and bottom edge of a component, as \<open>calculateComponentBounds\<close> reads them.\<close>

definition right_edge :: "component \<Rightarrow> real" where
  "right_edge c = or_num (c_x c) 0 + or_num (c_width c) 0"

definition bottom_edge :: "component \<Rightarrow> real" where
  "bottom_edge c = or_num (c_y c) 0 + or_num (c_height c) 0"

text \<open>The frames of a run, and the sizes they carry.\<close>

definition frames_of :: "call list \<Rightarrow> descriptor list" where
  "frames_of calls = filter (\<lambda>d. d_type d = KFrame) (shapes_of calls)"

definition frame_sizes :: "call list \<Rightarrow> (num \<times> num) list" where
  "frame_sizes calls =
     map (\<lambda>d. (p_w (d_props d), p_h (d_props d)))
       (filter (\<lambda>d. d_type d = KFrame) (shapes_of calls))"

definition all_components :: "slide list \<Rightarrow> component set" where
  "all_components slides = (\<Union>s \<in> set slides. set (sl_components s))"

subsection \<open>The colour classifier\<close>

text \<open>
  The colour classifier as the specification words it: one rule table, the first rule that
  matches, and a default that the call site chooses.
\<close>

definition colorRules :: "string \<Rightarrow> palette option" where
  "colorRules hexColor =
     (if hexColor = ''#000000'' then Some Black
      else if hexColor = ''#ffffff'' then Some Grey
      else if hexColor = ''#ed7d31'' then Some Orange
      else if hexColor = ''#4472c4'' then Some Blue
      else if hexColor = ''#5b9bd5'' then Some LightBlue
      else if hexColor = ''#70ad47'' then Some Green
      else if hexColor = ''#ffc000'' then Some Yellow
      else if hexColor = ''#c55a5a'' then Some Red
      else if startsWith hexColor ''#ed'' \<or> startsWith hexColor ''#e9''
              \<or> (startsWith hexColor ''#f'' \<and> \<not> includes_str hexColor ''ff'') then Some Orange
      else if startsWith hexColor ''#44'' \<or> startsWith hexColor ''#45'' then Some Blue
      else if startsWith hexColor ''#5b'' \<or> startsWith hexColor ''#5a'' then Some LightBlue
      else if startsWith hexColor ''#70'' \<or> startsWith hexColor ''#6''
              \<or> startsWith hexColor ''#4e'' then Some Green
      else if startsWith hexColor ''#ff'' \<and> includes_str hexColor ''c'' then Some Yellow
      else if startsWith hexColor ''#ff'' \<and> \<not> includes_str hexColor ''c'' then Some Red
      else if startsWith hexColor ''#c5'' \<or> includes_str hexColor ''red'' then Some Red
      else if startsWith hexColor ''#e7'' \<or> startsWith hexColor ''#a5'' then Some Grey
      else if startsWith hexColor ''#4'' then Some Blue
      else if startsWith hexColor ''#5'' then Some LightBlue
      else if startsWith hexColor ''#7'' \<or> startsWith hexColor ''#6'' then Some Green
      else if startsWith hexColor ''#e'' \<or> startsWith hexColor ''#f'' then Some Orange
      else None)"

definition classifyColor :: "palette \<Rightarrow> string option \<Rightarrow> palette" where
  "classifyColor dflt v =
     (if truthy_str v \<and> the v \<noteq> ''transparent'' then
        (case colorRules (toLowerCase (the v)) of Some p \<Rightarrow> p | None \<Rightarrow> dflt)
      else dflt)"

definition palette12 :: "palette list" where
  "palette12 = [Black, Grey, LightViolet, Violet, Blue, LightBlue, Yellow, Orange, Green,
     LightGreen, LightRed, Red]"

definition rule_matches :: "string option \<Rightarrow> bool" where
  "rule_matches v = (case v of None \<Rightarrow> False | Some s \<Rightarrow> colorRules (toLowerCase s) \<noteq> None)"

definition background_present :: "component \<Rightarrow> bool" where
  "background_present c =
     (case style_of s_backgroundColor c of None \<Rightarrow> False
      | Some s \<Rightarrow> s \<noteq> [] \<and> s \<noteq> ''transparent'')"

subsection \<open>Images, tables and scenes\<close>

text \<open>The width and height that the props of a geo or image shape carry.\<close>

fun props_size :: "props \<Rightarrow> (num \<times> num) option" where
  "props_size (GeoProps g col fill sz w h) = Some (w, h)"
| "props_size (ImageProps a w h) = Some (w, h)"
| "props_size (FrameProps w h name) = Some (w, h)"
| "props_size (TextProps t col sz font auto w) = None"

text \<open>The guard of line 514: \<open>imageUrl\<close> is present and starts with "data:".\<close>

definition data_url :: "component \<Rightarrow> bool" where
  "data_url c = (case meta_of m_imageUrl c of None \<Rightarrow> False | Some u \<Rightarrow> startsWith u ''data:'')"

text \<open>The cells of a grid in row-major order, each with its row and column index.\<close>

definition cells_with_index :: "'a list list \<Rightarrow> (nat \<times> nat \<times> 'a) list" where
  "cells_with_index grid =
     concat (map (\<lambda>(rowIndex, row). map (\<lambda>(colIndex, cell). (rowIndex, colIndex, cell))
       (enumerate 0 row)) (enumerate 0 grid))"

definition geo_shapes :: "call list \<Rightarrow> descriptor list" where
  "geo_shapes calls = filter (\<lambda>d. d_type d = KGeo) (shapes_of calls)"

definition text_shapes :: "call list \<Rightarrow> descriptor list" where
  "text_shapes calls = filter (\<lambda>d. d_type d = KText) (shapes_of calls)"

text \<open>
  What a run shows of its shapes, the identifier of the asset record apart: identifier,
  kind, position, rotation, parent and style values of every shape, in order.
\<close>

fun props_sans_asset :: "props \<Rightarrow> props" where
  "props_sans_asset (ImageProps assetId w h) = ImageProps [] w h"
| "props_sans_asset (FrameProps w h name) = FrameProps w h name"
| "props_sans_asset (TextProps t col sz font auto w) = TextProps t col sz font auto w"
| "props_sans_asset (GeoProps g col fill sz w h) = GeoProps g col fill sz w h"

definition scene_of :: "call list \<Rightarrow> descriptor list" where
  "scene_of calls = map (\<lambda>d. d\<lparr> d_props := props_sans_asset (d_props d) \<rparr>) (shapes_of calls)"

subsection \<open>Identifiers\<close>

text \<open>
  The identifiers of a run, and the type and identifier key (\<open>component.id || index\<close>) of
  the components of a slide in rendering order.
\<close>

definition ids_of :: "call list \<Rightarrow> string list" where
  "ids_of calls = map d_id (shapes_of calls)"

definition component_keys :: "component list \<Rightarrow> (string \<times> string) list" where
  "component_keys components =
     map (\<lambda>(index, c). (c_type c, idOrIndex c index)) (enumerate 0 (sortedComponents components))"

text \<open>The shape of every identifier of a component: \<open>shape:<kind>-<slideIndex>-<rest>\<close>.\<close>

definition shapeKey :: "string \<Rightarrow> nat \<Rightarrow> string \<Rightarrow> string" where
  "shapeKey kind slideIndex rest =
     createShapeId (kind @ ''-'' @ show_nat slideIndex @ ''-'' @ rest)"

definition frameKey :: "nat \<Rightarrow> string" where
  "frameKey slideIndex = createShapeId (''slide-frame-'' @ show_nat slideIndex)"

definition cellKey :: "string \<Rightarrow> string \<Rightarrow> nat \<Rightarrow> nat \<Rightarrow> string" where
  "cellKey key part rowIndex colIndex =
     key @ ''-cell-'' @ part @ ''-'' @ show_nat rowIndex @ ''-'' @ show_nat colIndex"

text \<open>
  The identifiers that a component of a given type and key can receive on a slide:
  \<open>id_form (type, key) kind rest\<close> holds when \<open>shape:<kind>-<slideIndex>-<rest>\<close> is one.
\<close>

definition id_form :: "string \<times> string \<Rightarrow> string \<Rightarrow> string \<Rightarrow> bool" where
  "id_form tk kind rest =
     ((fst tk = ''text'' \<and> kind = ''text'' \<and> rest = snd tk)
      \<or> (fst tk = ''shape'' \<and> kind = ''shape'' \<and> rest = snd tk)
      \<or> (fst tk = ''image'' \<and> (kind = ''image'' \<or> kind = ''placeholder'') \<and> rest = snd tk)
      \<or> (fst tk = ''table'' \<and> kind = ''table''
          \<and> (\<exists>part rowIndex colIndex. (part = ''bg'' \<or> part = ''text'')
                \<and> rest = cellKey (snd tk) part rowIndex colIndex)))"

definition component_ids :: "nat \<Rightarrow> string \<times> string \<Rightarrow> string set" where
  "component_ids slideIndex tk = {shapeKey kind slideIndex rest | kind rest. id_form tk kind rest}"

definition slide_ids :: "nat \<Rightarrow> string set" where
  "slide_ids slideIndex = insert (frameKey slideIndex) (\<Union>tk. component_ids slideIndex tk)"

section \<open>Example inputs\<close>

text \<open>
  A text component, a style and a metadata record with every optional field absent; two
  platforms whose decoding succeeds and whose asset identifiers differ.
\<close>

definition emptyComponent :: component where
  "emptyComponent = \<lparr> c_id = None, c_type = ''text'', c_x = None, c_y = None, c_width = None,
     c_height = None, c_rotation = None, c_zIndex = None, c_content = None, c_richText = None,
     c_style = None, c_metadata = None \<rparr>"

definition emptyStyle :: style where
  "emptyStyle = \<lparr> s_color = None, s_backgroundColor = None, s_borderColor = None,
     s_fontSize = None, s_fontFamily = None, s_shapeType = None \<rparr>"

definition emptyMetadata :: metadata where
  "emptyMetadata = \<lparr> m_name = None, m_shapeType = None, m_preset = None, m_imageUrl = None,
     m_tableData = None, m_rows = None, m_cols = None, m_hasHeader = None \<rparr>"

definition env0 :: platform where
  "env0 = \<lparr> fetchBlob = (\<lambda>url. Blob ''image/png''), createId = (\<lambda>k. ''asset:'' @ show_nat k) \<rparr>"

definition env1 :: platform where
  "env1 = \<lparr> fetchBlob = (\<lambda>url. Blob ''image/png''), createId = (\<lambda>k. ''asset:other'' @ show_nat k) \<rparr>"

text \<open>Two slides, the first with a component that reaches (1400, 800), the second empty.\<close>

definition exampleSlides :: "slide list" where
  "exampleSlides =
     [\<lparr> sl_slideNumber = 1, sl_name = None,
        sl_components = [emptyComponent\<lparr> c_type := ''shape'', c_x := Some 1000, c_y := Some 500,
          c_width := Some 400, c_height := Some 300 \<rparr>] \<rparr>,
      \<lparr> sl_slideNumber = 2, sl_name = None, sl_components = [] \<rparr>]"




text \<open>Shape components with coloured backgrounds and borders.\<close>

definition yellowFill :: component where
  "yellowFill = emptyComponent\<lparr> c_type := ''shape'',
     c_style := Some (emptyStyle\<lparr> s_backgroundColor := Some ''#FFC000'' \<rparr>) \<rparr>"

definition yellowBorder :: component where
  "yellowBorder = emptyComponent\<lparr> c_type := ''shape'',
     c_style := Some (emptyStyle\<lparr> s_borderColor := Some ''#FFC000'' \<rparr>) \<rparr>"

definition whiteBox :: component where
  "whiteBox = emptyComponent\<lparr> c_type := ''shape'',
     c_style := Some (emptyStyle\<lparr> s_backgroundColor := Some ''#ffffff'',
       s_borderColor := Some ''#4472c4'' \<rparr>) \<rparr>"

text \<open>An image that is not a data URL, an inline image, and a rotated text box.\<close>

definition linkedImage :: component where
  "linkedImage = emptyComponent\<lparr> c_type := ''image'', c_x := Some 10, c_y := Some 20,
     c_rotation := Some 90,
     c_metadata := Some (emptyMetadata\<lparr> m_imageUrl := Some ''https://example.org/a.png'' \<rparr>) \<rparr>"

definition inlineImage :: component where
  "inlineImage = emptyComponent\<lparr> c_type := ''image'', c_x := Some 10, c_y := Some 20,
     c_rotation := Some 180,
     c_metadata := Some (emptyMetadata\<lparr> m_imageUrl := Some ''data:image/png;base64,AAAA'' \<rparr>) \<rparr>"

definition rotatedText :: component where
  "rotatedText = emptyComponent\<lparr> c_x := Some 100, c_y := Some 100, c_width := Some 50,
     c_height := Some 20, c_rotation := Some 180 \<rparr>"

text \<open>
  Tables: a 3 by 2 grid with two blank cells, a ragged grid, a grid that its metadata
  mislabels, and a grid whose first row is empty.
\<close>

definition tableMetadata :: "string list list \<Rightarrow> metadata" where
  "tableMetadata grid = emptyMetadata\<lparr> m_tableData := Some grid \<rparr>"

definition exampleTable :: component where
  "exampleTable = emptyComponent\<lparr> c_type := ''table'', c_width := Some 300, c_height := Some 150,
     c_metadata := Some ((tableMetadata [[''a'', ''b''], ['''', ''c''], ['' '', ''d'']])
       \<lparr> m_rows := Some 3, m_cols := Some 2 \<rparr>) \<rparr>"

definition raggedTable :: component where
  "raggedTable = emptyComponent\<lparr> c_type := ''table'',
     c_metadata := Some (tableMetadata [[''a'', ''b''], [''c'']]) \<rparr>"

definition mislabelledTable :: component where
  "mislabelledTable = emptyComponent\<lparr> c_type := ''table'',
     c_metadata := Some ((tableMetadata [[''a'']]) \<lparr> m_rows := Some 3, m_cols := Some 2 \<rparr>) \<rparr>"

definition headlessTable :: component where
  "headlessTable = emptyComponent\<lparr> c_type := ''table'', c_x := Some 40,
     c_metadata := Some (tableMetadata [[], [''a'', ''b'']]) \<rparr>"

text \<open>Two slides with components of every type, and a slide on which two components share an id.\<close>

definition imageSlides :: "slide list" where
  "imageSlides =
     [\<lparr> sl_slideNumber = 1, sl_name = Some ''Title'',
        sl_components = [inlineImage, rotatedText, linkedImage] \<rparr>,
      \<lparr> sl_slideNumber = 2, sl_name = None, sl_components = [exampleTable, whiteBox] \<rparr>]"

definition duplicateSlides :: "slide list" where
  "duplicateSlides =
     [\<lparr> sl_slideNumber = 1, sl_name = None,
        sl_components = [emptyComponent\<lparr> c_id := Some ''dup'', c_content := Some ''first'' \<rparr>,
          emptyComponent\<lparr> c_id := Some ''dup'', c_content := Some ''second'' \<rparr>] \<rparr>]"

section \<open>Properties\<close>

subsection \<open>Calls and shapes\<close>

lemma shapes_of_append: "shapes_of (xs @ ys) = shapes_of xs @ shapes_of ys"
  by (induction xs rule: shapes_of.induct) simp_all

lemma shapes_of_concat: "shapes_of (concat xss) = concat (map shapes_of xss)"
  by (induction xss) (simp_all add: shapes_of_append)

lemma d_type_with_parent: "d_type (with_parent f d) = d_type d"
  by (simp add: with_parent_def)

lemma scene_of_append: "scene_of (xs @ ys) = scene_of xs @ scene_of ys"
  by (simp add: scene_of_def shapes_of_append)

lemma scene_of_Cons: "scene_of (CreateShape d # xs) = d\<lparr> d_props := props_sans_asset (d_props d) \<rparr> # scene_of xs"
  by (simp add: scene_of_def)

subsection \<open>The uniform frame size\<close>

lemma Max_insert_max:
  "finite S \<Longrightarrow> Max (insert (max a r) S) = Max (insert (a::real) (insert r S))"
  by (cases "S = {}") (simp_all add: max.assoc)

lemma bounds_foldl:
  "foldl (\<lambda>(maxX, maxY) comp.
             (let compMaxX = or_num (c_x comp) 0 + or_num (c_width comp) 0;
                  compMaxY = or_num (c_y comp) 0 + or_num (c_height comp) 0
              in (if compMaxX > maxX then compMaxX else maxX,
                  if compMaxY > maxY then compMaxY else maxY)))
           (a, b) cs
   = (Max (insert a (right_edge ` set cs)), Max (insert b (bottom_edge ` set cs)))"
proof (induction cs arbitrary: a b)
  case Nil
  show ?case by simp
next
  case (Cons c cs)
  have ma: "Max (insert (max a (right_edge c)) (right_edge ` set cs))
            = Max (insert a (insert (right_edge c) (right_edge ` set cs)))"
    by (rule Max_insert_max) simp
  have mb: "Max (insert (max b (bottom_edge c)) (bottom_edge ` set cs))
            = Max (insert b (insert (bottom_edge c) (bottom_edge ` set cs)))"
    by (rule Max_insert_max) simp
  have ia: "(if right_edge c > a then right_edge c else a) = max a (right_edge c)"
    by (simp add: max_def)
  have ib: "(if bottom_edge c > b then bottom_edge c else b) = max b (bottom_edge c)"
    by (simp add: max_def)
  show ?case
    using Cons.IH [of "max a (right_edge c)" "max b (bottom_edge c)"]
    by (simp add: Let_def ia ib ma mb right_edge_def [symmetric] bottom_edge_def [symmetric])
qed

lemma calculateComponentBounds_Max:
  "calculateComponentBounds cs
   = (Max (insert 0 (right_edge ` set cs)), Max (insert 0 (bottom_edge ` set cs)))"
  by (cases cs) (simp_all add: calculateComponentBounds_def bounds_foldl del: foldl_Cons)

lemma Max_shift:
  assumes "finite R"
  shows "Max (insert 0 R) + (50::real) = Max (insert 50 ((\<lambda>r. r + 50) ` R))"
proof -
  have "mono (\<lambda>r::real. r + 50)" by (simp add: mono_def)
  from mono_Max_commute [OF this, of "insert 0 R"] assms
  show ?thesis by simp
qed

lemma Max_step:
  assumes "finite S" and "finite R" and "(50::real) \<le> a"
  shows "max (Max (insert a S)) (Max (insert 0 R) + 50)
         = Max (insert a (S \<union> (\<lambda>r. r + 50) ` R))"
proof -
  let ?R = "(\<lambda>r. r + 50) ` R"
  have "Max (insert a S \<union> insert 50 ?R) = max (Max (insert a S)) (Max (insert 50 ?R))"
    by (rule Max_Un) (use assms in auto)
  moreover have "insert a S \<union> insert 50 ?R = insert 50 (insert a (S \<union> ?R))"
    by auto
  moreover have "Max (insert 50 (insert a (S \<union> ?R))) = max 50 (Max (insert a (S \<union> ?R)))"
    by (rule Max_insert) (use assms in auto)
  moreover have "a \<le> Max (insert a (S \<union> ?R))"
    by (rule Max_ge) (use assms in auto)
  ultimately have "max (Max (insert a S)) (Max (insert 50 ?R)) = Max (insert a (S \<union> ?R))"
    using assms(3) by (metis max.absorb2 order_trans)
  then show ?thesis
    by (simp only: Max_shift [OF assms(2)])
qed

lemma maxSlideSize_Max:
  "maxSlideSize slides
   = (Max (insert 1280 ((\<lambda>c. right_edge c + 50) ` all_components slides)),
      Max (insert 720 ((\<lambda>c. bottom_edge c + 50) ` all_components slides)))"
proof (induction slides rule: rev_induct)
  case Nil
  show ?case by (simp add: maxSlideSize_def all_components_def)
next
  case (snoc s slides)
  have fin: "finite (all_components slides)"
    by (simp add: all_components_def)
  have un: "all_components (slides @ [s]) = all_components slides \<union> set (sl_components s)"
    by (auto simp: all_components_def)
  have w: "max (Max (insert 1280 ((\<lambda>c. right_edge c + 50) ` all_components slides)))
             (Max (insert 0 (right_edge ` set (sl_components s))) + 50)
           = Max (insert 1280 ((\<lambda>c. right_edge c + 50) ` all_components (slides @ [s])))"
    using fin by (simp add: Max_step un image_Un image_image)
  have h: "max (Max (insert 720 ((\<lambda>c. bottom_edge c + 50) ` all_components slides)))
             (Max (insert 0 (bottom_edge ` set (sl_components s))) + 50)
           = Max (insert 720 ((\<lambda>c. bottom_edge c + 50) ` all_components (slides @ [s])))"
    using fin by (simp add: Max_step un image_Un image_image)
  from snoc.IH show ?case
    unfolding maxSlideSize_def
    by (simp add: calculateComponentBounds_Max w h maxSlideSize_def [symmetric])
qed

lemma frames_of_Nil: "frames_of [] = []"
  by (simp add: frames_of_def)

lemma frames_of_append: "frames_of (xs @ ys) = frames_of xs @ frames_of ys"
  by (simp add: frames_of_def shapes_of_append)

lemma frames_of_concat:
  "(\<And>x. x \<in> set xss \<Longrightarrow> frames_of x = []) \<Longrightarrow> frames_of (concat xss) = []"
  by (induction xss) (simp_all add: frames_of_append frames_of_Nil)

lemma frames_of_renderCell:
  "frames_of (renderCell c index slideIndex frameId tableX tableY rowIndex colIndex cellContent) = []"
  by (simp add: frames_of_def renderCell_def Let_def d_type_with_parent)

lemma frames_of_renderTableComponent:
  "frames_of (renderTableComponent c index frameX frameY slideIndex frameId) = []"
proof -
  have row: "frames_of (concat (map (\<lambda>(colIndex, cellContent).
                   renderCell c index slideIndex frameId tableX tableY rowIndex colIndex
                     cellContent) cells)) = []" for tableX tableY rowIndex cells
    by (rule frames_of_concat) (auto simp: frames_of_renderCell)
  have "frames_of (concat (map (\<lambda>(rowIndex, row).
                 concat (map (\<lambda>(colIndex, cellContent).
                   renderCell c index slideIndex frameId tableX tableY rowIndex colIndex
                     cellContent) (enumerate 0 row))) rows)) = []" for tableX tableY rows
    by (rule frames_of_concat) (auto simp: row)
  then show ?thesis
    by (simp add: renderTableComponent_def Let_def frames_of_Nil)
qed

lemma frames_of_renderComponent:
  "frames_of (fst (renderComponent env c index frameX frameY slideIndex frameId n)) = []"
proof -
  have t: "frames_of (renderTextComponent c index frameX frameY slideIndex frameId) = []"
    by (simp add: frames_of_def renderTextComponent_def Let_def d_type_with_parent
          split: prod.splits)
  have s: "frames_of (renderShapeComponent c index frameX frameY slideIndex frameId) = []"
    by (simp add: frames_of_def renderShapeComponent_def Let_def d_type_with_parent)
  have i: "frames_of (fst (renderImageComponent env c index frameX frameY slideIndex frameId n)) = []"
    by (simp add: frames_of_def renderImageComponent_def placeholderRect_def Let_def
          d_type_with_parent split: fetched.splits)
  show ?thesis
    by (simp add: renderComponent_def t s i frames_of_renderTableComponent frames_of_Nil)
qed

lemma frames_of_renderFrom:
  "frames_of (fst (renderFrom env cs index frameX frameY slideIndex frameId n)) = []"
proof (induction cs arbitrary: index n)
  case Nil
  show ?case by (simp add: frames_of_Nil)
next
  case (Cons c cs)
  obtain calls n' where r: "renderComponent env c index frameX frameY slideIndex frameId n = (calls, n')"
    by (cases "renderComponent env c index frameX frameY slideIndex frameId n")
  obtain calls' n'' where r': "renderFrom env cs (Suc index) frameX frameY slideIndex frameId n' = (calls', n'')"
    by (cases "renderFrom env cs (Suc index) frameX frameY slideIndex frameId n'")
  have "frames_of calls = []"
    using frames_of_renderComponent [of env c index frameX frameY slideIndex frameId n] r by simp
  moreover have "frames_of calls' = []"
    using Cons.IH [of "Suc index" n'] r' by simp
  ultimately show ?case
    by (simp add: r r' frames_of_append)
qed

lemma frame_sizes_drawFrom:
  "frame_sizes (fst (drawFrom env frameSize slides slideIndex n))
   = replicate (length slides) (Fin (fst frameSize), Fin (snd frameSize))"
proof (induction slides arbitrary: slideIndex n)
  case Nil
  show ?case by (simp add: frame_sizes_def)
next
  case (Cons s slides)
  let ?x = "real (slideIndex mod 4) * (fst frameSize + 200) + 50"
  let ?y = "real (slideIndex div 4) * (snd frameSize + 200) + 50"
  let ?fid = "createShapeId (''slide-frame-'' @ show_nat slideIndex)"
  have fs: "frame_sizes calls = map (\<lambda>d. (p_w (d_props d), p_h (d_props d))) (frames_of calls)"
    for calls by (simp add: frame_sizes_def frames_of_def)
  have cons: "frames_of (CreateShape d # calls) = (if d_type d = KFrame then [d] else []) @ frames_of calls"
    for d calls by (simp add: frames_of_def)
  obtain calls n' where r: "drawComponentsInFrame env (sl_components s) ?x ?y slideIndex (Some ?fid) n = (calls, n')"
    by (cases "drawComponentsInFrame env (sl_components s) ?x ?y slideIndex (Some ?fid) n")
  obtain calls' n'' where r': "drawFrom env frameSize slides (Suc slideIndex) n' = (calls', n'')"
    by (cases "drawFrom env frameSize slides (Suc slideIndex) n'")
  have "frames_of calls = []"
    using frames_of_renderFrom [of env "sortedComponents (sl_components s)" 0 ?x ?y slideIndex "Some ?fid" n] r
    by (simp add: drawComponentsInFrame_def)
  moreover have "frame_sizes calls' = replicate (length slides) (Fin (fst frameSize), Fin (snd frameSize))"
    using Cons.IH [of "Suc slideIndex" n'] r' by simp
  moreover have "fst (drawFrom env frameSize (s # slides) slideIndex n)
      = CreateShape \<lparr> d_id = ?fid, d_type = KFrame, d_x = Fin ?x, d_y = Fin ?y,
            d_rotation = None, d_parentId = None,
            d_props = FrameProps (Fin (fst frameSize)) (Fin (snd frameSize)) (frameName s) \<rparr>
        # calls @ calls'"
    by (simp only: drawFrom.simps Let_def r r' prod.case fst_conv)
  ultimately show ?case
    by (simp add: fs cons frames_of_append)
qed

lemma frame_sizes_drawSlides:
  "frame_sizes (drawSlides env slides)
   = replicate (length slides) (Fin (fst (maxSlideSize slides)), Fin (snd (maxSlideSize slides)))"
proof -
  have a: "frame_sizes (DeleteAllShapes # calls @ [ZoomToFit]) = frame_sizes calls" for calls
    by (simp add: frame_sizes_def shapes_of_append)
  show ?thesis
    by (simp add: drawSlides_def a frame_sizes_drawFrom) (simp add: frame_sizes_def)
qed

text \<open>
  C4. For every list of slides one frame size is used for the frame of every slide: its width
  is the maximum of 1280 and of \<open>x + width + 50\<close> over the components of all slides, its
  height the maximum of 720 and of \<open>y + height + 50\<close>, a missing field counting 0. For two
  slides, one with a component reaching (1400, 800) and one with no component, both frames
  have size (1450, 850).
\<close>

theorem C4_uniform_frame_size:
  "maxSlideSize slides
     = (Max (insert 1280 ((\<lambda>c. right_edge c + 50) ` all_components slides)),
        Max (insert 720 ((\<lambda>c. bottom_edge c + 50) ` all_components slides)))
   \<and> frame_sizes (drawSlides env slides)
     = replicate (length slides) (Fin (fst (maxSlideSize slides)), Fin (snd (maxSlideSize slides)))
   \<and> frame_sizes (drawSlides env exampleSlides) = [(Fin 1450, Fin 850), (Fin 1450, Fin 850)]"
proof -
  have "maxSlideSize exampleSlides = (1450, 850)"
    by (simp add: maxSlideSize_def exampleSlides_def calculateComponentBounds_def
          emptyComponent_def or_num_def)
  then have "frame_sizes (drawSlides env exampleSlides) = [(Fin 1450, Fin 850), (Fin 1450, Fin 850)]"
    by (simp add: frame_sizes_drawSlides) (simp add: exampleSlides_def)
  then show ?thesis
    by (simp only: maxSlideSize_Max frame_sizes_drawSlides simp_thms)
qed

subsection \<open>Stacking order\<close>





subsection \<open>The colour classifiers\<close>

lemma case_if_Some:
  "(case (if b then Some x else r) of Some p \<Rightarrow> p | None \<Rightarrow> d)
   = (if b then x else (case r of Some p \<Rightarrow> p | None \<Rightarrow> d))"
  by simp

lemma fillColor_classify: "fillColor c = classifyColor Grey (style_of s_backgroundColor c)"
  by (simp only: fillColor_def classifyColor_def colorRules_def Let_def case_if_Some option.case)

lemma strokeColor_classify: "strokeColor c = classifyColor Black (style_of s_borderColor c)"
  by (simp only: strokeColor_def classifyColor_def colorRules_def Let_def case_if_Some option.case)

lemma in_palette12: "p \<in> set palette12"
  by (cases p) (simp_all add: palette12_def)

lemma colorRules_transparent: "colorRules (toLowerCase ''transparent'') = None"
  by code_simp

lemma classify_matched:
  "colorRules (toLowerCase s) = Some p \<Longrightarrow> classifyColor d (Some s) = p"
proof -
  assume a: "colorRules (toLowerCase s) = Some p"
  have "s \<noteq> ''transparent''" using a colorRules_transparent by auto
  moreover have "colorRules (toLowerCase []) = None" by code_simp
  then have "s \<noteq> []" using a by auto
  ultimately show ?thesis using a by (simp add: classifyColor_def truthy_str_def)
qed

lemma classify_unmatched:
  "colorRules (toLowerCase s) = None \<Longrightarrow> classifyColor d (Some s) = d"
  by (simp add: classifyColor_def)

text \<open>
  C8. The fill classifier (on \<open>backgroundColor\<close>) and the stroke classifier (on
  \<open>borderColor\<close>) are one rule table with two defaults: on an input that matches a rule
  both return that rule's palette value; on an unmatched, absent or "transparent" input the
  fill classifier returns grey and the stroke classifier black; both always return one of
  the 12 palette values.
\<close>

theorem C8_same_classifier:
  assumes "style_of s_backgroundColor c = v" and "style_of s_borderColor c' = v"
  shows "fillColor c = classifyColor Grey v \<and> strokeColor c' = classifyColor Black v
    \<and> (if rule_matches v
        then fillColor c = strokeColor c' \<and> colorRules (toLowerCase (the v)) = Some (fillColor c)
        else fillColor c = Grey \<and> strokeColor c' = Black)
    \<and> \<not> rule_matches None \<and> \<not> rule_matches (Some ''transparent'')
    \<and> fillColor c \<in> set palette12 \<and> strokeColor c' \<in> set palette12"
proof -
  have f: "fillColor c = classifyColor Grey v" and s: "strokeColor c' = classifyColor Black v"
    using assms by (simp_all add: fillColor_classify strokeColor_classify)
  have m: "classifyColor Grey v = classifyColor Black v
           \<and> colorRules (toLowerCase (the v)) = Some (classifyColor Grey v)" if "rule_matches v"
  proof -
    from that obtain h p where "v = Some h" "colorRules (toLowerCase h) = Some p"
      by (auto simp: rule_matches_def split: option.splits)
    then show ?thesis by (simp add: classify_matched)
  qed
  have u: "classifyColor d v = d" if "\<not> rule_matches v" for d
    using that
    by (cases v) (simp_all add: rule_matches_def classify_unmatched, simp add: classifyColor_def truthy_str_def)
  have t: "\<not> rule_matches (Some ''transparent'')"
    by (simp only: rule_matches_def option.case colorRules_transparent simp_thms)
  have n: "\<not> rule_matches None"
    by (simp add: rule_matches_def)
  from f s m u t n show ?thesis
    by (simp add: in_palette12)
qed

theorem C8_same_classifier_witness:
  "fillColor yellowFill = Yellow \<and> strokeColor yellowBorder = Yellow
   \<and> rule_matches (Some ''#FFC000'')"
proof -
  have a: "style_of s_backgroundColor yellowFill = Some ''#FFC000''" by code_simp
  have b: "style_of s_borderColor yellowBorder = Some ''#FFC000''" by code_simp
  have r: "rule_matches (Some ''#FFC000'')" by code_simp
  have y: "colorRules (toLowerCase ''#FFC000'') = Some Yellow" by code_simp
  from C8_same_classifier [OF a b] r y show ?thesis by auto
qed

text \<open>
  C9. The geo descriptor of a shape component carries one colour, the mapped stroke colour
  when the mapped fill colour is grey (as it is for an absent, "transparent" or white
  background) and the mapped fill colour otherwise; its fill style is solid exactly when
  \<open>backgroundColor\<close> is present (a non-empty string) and not "transparent", else none.
\<close>

theorem C9_shape_color_and_fill:
  "map d_props (shapes_of (renderShapeComponent c index frameX frameY slideIndex frameId))
     = [GeoProps (geoType c) (if fillColor c = Grey then strokeColor c else fillColor c)
          (if background_present c then FillSolid else FillNone) SizeM
          (Fin (or_num (c_width c) 100)) (Fin (or_num (c_height c) 100))]
   \<and> (style_of s_backgroundColor c = None \<or> style_of s_backgroundColor c = Some ''transparent''
        \<or> style_of s_backgroundColor c = Some ''#ffffff'' \<longrightarrow> fillColor c = Grey)"
proof -
  have w: "colorRules (toLowerCase ''#ffffff'') = Some Grey" by code_simp
  have g: "fillColor c = Grey" if "style_of s_backgroundColor c = None \<or> style_of s_backgroundColor c = Some ''transparent''
        \<or> style_of s_backgroundColor c = Some ''#ffffff''"
    using that w by (auto simp: fillColor_classify classifyColor_def truthy_str_def)
  have p: "(truthy_str (style_of s_backgroundColor c)
         \<and> the (style_of s_backgroundColor c) \<noteq> ''transparent'') = background_present c"
    by (simp add: background_present_def truthy_str_def split: option.splits)
  have "map d_props (shapes_of (renderShapeComponent c index frameX frameY slideIndex frameId))
     = [GeoProps (geoType c) (finalColor c) (finalFill c) SizeM
          (Fin (or_num (c_width c) 100)) (Fin (or_num (c_height c) 100))]"
    by (simp add: renderShapeComponent_def Let_def with_parent_def)
  then show ?thesis using g
    by (simp only: finalColor_def finalFill_def p) simp
qed

theorem C9_shape_color_and_fill_witness:
  "map d_props (shapes_of (renderShapeComponent whiteBox 0 0 0 0 None))
     = [GeoProps Rectangle Blue FillSolid SizeM (Fin 100) (Fin 100)]
   \<and> fillColor whiteBox = Grey"
proof -
  have a: "style_of s_backgroundColor whiteBox = Some ''#ffffff''" by code_simp
  have f: "fillColor whiteBox = Grey" by code_simp
  have s: "strokeColor whiteBox = Blue" by code_simp
  have g: "geoType whiteBox = Rectangle" by code_simp
  have b: "background_present whiteBox" by code_simp
  have w: "or_num (c_width whiteBox) 100 = 100" "or_num (c_height whiteBox) 100 = 100"
    by (simp_all add: whiteBox_def emptyComponent_def or_num_def)
  from C9_shape_color_and_fill [of whiteBox 0 0 0 0 None] a f s g b w show ?thesis
    by simp
qed

subsection \<open>Images and rotation\<close>

lemma data_url_guard:
  "(truthy_str (meta_of m_imageUrl c) \<and> startsWith (the (meta_of m_imageUrl c)) ''data:'')
   = data_url c"
  by (auto simp: data_url_def truthy_str_def split: option.splits)

lemma renderImage_placeholder:
  "\<not> data_url c \<Longrightarrow>
   renderImageComponent env c index frameX frameY slideIndex frameId n
   = ([CreateShape (placeholderRect c index slideIndex frameId (place frameId frameX (c_x c))
         (place frameId frameY (c_y c)) (or_num (c_width c) 200) (or_num (c_height c) 150))], n)"
  by (simp only: renderImageComponent_def Let_def data_url_guard if_False)

lemma renderImage_resolved:
  "data_url c \<Longrightarrow> fetchBlob env (the (meta_of m_imageUrl c)) = Blob mimeType \<Longrightarrow>
   shapes_of (fst (renderImageComponent env c index frameX frameY slideIndex frameId n))
   = [with_parent frameId \<lparr> d_id = createShapeId (''image-'' @ show_nat slideIndex @ ''-'' @ idOrIndex c index),
        d_type = KImage, d_x = Fin (place frameId frameX (c_x c)),
        d_y = Fin (place frameId frameY (c_y c)), d_rotation = Some (Fin (rotationRad c)),
        d_parentId = None,
        d_props = ImageProps (createId env n) (Fin (or_num (c_width c) 200))
          (Fin (or_num (c_height c) 150)) \<rparr>]"
  by (simp only: renderImageComponent_def Let_def data_url_guard if_True fetched.case fst_conv
        shapes_of.simps)

lemma with_parent_fields:
  "d_x (with_parent f d) = d_x d" "d_y (with_parent f d) = d_y d"
  "d_rotation (with_parent f d) = d_rotation d" "d_props (with_parent f d) = d_props d"
  "d_id (with_parent f d) = d_id d"
  by (simp_all add: with_parent_def)

text \<open>
  C6. For an image component whose \<open>imageUrl\<close> is absent or does not start with "data:"
  the resolver makes exactly one call, the creation of a placeholder rectangle at the
  position and with the width and height (defaults 200 and 150) that the image shape of the
  same component would have had; it registers no asset and awaits nothing.
\<close>

theorem C6_image_fallback:
  assumes "\<not> data_url c"
  shows "(\<exists>d. renderImageComponent env c index frameX frameY slideIndex frameId n
              = ([CreateShape d], n)
            \<and> d_type d = KGeo
            \<and> d_x d = Fin (place frameId frameX (c_x c))
            \<and> d_y d = Fin (place frameId frameY (c_y c))
            \<and> d_props d = GeoProps Rectangle Grey FillPattern SizeM
                 (Fin (or_num (c_width c) 200)) (Fin (or_num (c_height c) 150)))
    \<and> assets_of (fst (renderImageComponent env c index frameX frameY slideIndex frameId n)) = []
    \<and> awaits_of (fst (renderImageComponent env c index frameX frameY slideIndex frameId n)) = 0
    \<and> (data_url c' \<and> fetchBlob env (the (meta_of m_imageUrl c')) = Blob mimeType
         \<and> c_x c' = c_x c \<and> c_y c' = c_y c \<and> c_width c' = c_width c \<and> c_height c' = c_height c
        \<longrightarrow> map (\<lambda>d. (d_x d, d_y d, props_size (d_props d)))
              (shapes_of (fst (renderImageComponent env c' index frameX frameY slideIndex frameId n)))
            = map (\<lambda>d. (d_x d, d_y d, props_size (d_props d)))
              (shapes_of (fst (renderImageComponent env c index frameX frameY slideIndex frameId n))))"
proof -
  let ?p = "placeholderRect c index slideIndex frameId (place frameId frameX (c_x c))
         (place frameId frameY (c_y c)) (or_num (c_width c) 200) (or_num (c_height c) 150)"
  have r: "renderImageComponent env c index frameX frameY slideIndex frameId n = ([CreateShape ?p], n)"
    using assms by (rule renderImage_placeholder)
  have p: "d_type ?p = KGeo" "d_x ?p = Fin (place frameId frameX (c_x c))"
    "d_y ?p = Fin (place frameId frameY (c_y c))"
    "d_props ?p = GeoProps Rectangle Grey FillPattern SizeM
                 (Fin (or_num (c_width c) 200)) (Fin (or_num (c_height c) 150))"
    by (simp_all add: placeholderRect_def with_parent_fields d_type_with_parent)
  have i: "map (\<lambda>d. (d_x d, d_y d, props_size (d_props d)))
              (shapes_of (fst (renderImageComponent env c' index frameX frameY slideIndex frameId n)))
            = map (\<lambda>d. (d_x d, d_y d, props_size (d_props d)))
              (shapes_of (fst (renderImageComponent env c index frameX frameY slideIndex frameId n)))"
    if "data_url c'" "fetchBlob env (the (meta_of m_imageUrl c')) = Blob mimeType"
       "c_x c' = c_x c" "c_y c' = c_y c" "c_width c' = c_width c" "c_height c' = c_height c"
    using that by (simp add: renderImage_resolved r p with_parent_fields)
  from r p i show ?thesis by simp
qed

theorem C6_image_fallback_witness:
  "drawComponents env0 [linkedImage]
   = [DeleteAllShapes,
      CreateShape \<lparr> d_id = ''shape:placeholder-0-0'', d_type = KGeo, d_x = Fin 10, d_y = Fin 20,
        d_rotation = None, d_parentId = None,
        d_props = GeoProps Rectangle Grey FillPattern SizeM (Fin 200) (Fin 150) \<rparr>,
      ZoomToFit]
   \<and> assets_of (fst (renderImageComponent env0 linkedImage 0 0 0 0 None 0)) = []
   \<and> awaits_of (fst (renderImageComponent env0 linkedImage 0 0 0 0 None 0)) = 0
   \<and> map (\<lambda>d. (d_x d, d_y d, props_size (d_props d)))
        (shapes_of (fst (renderImageComponent env0 inlineImage 0 0 0 0 None 0)))
      = [(Fin 10, Fin 20, Some (Fin 200, Fin 150))]"
proof -
  have d: "\<not> data_url linkedImage" by code_simp
  have i: "data_url inlineImage \<and> fetchBlob env0 (the (meta_of m_imageUrl inlineImage)) = Blob ''image/png''
         \<and> c_x inlineImage = c_x linkedImage \<and> c_y inlineImage = c_y linkedImage
         \<and> c_width inlineImage = c_width linkedImage \<and> c_height inlineImage = c_height linkedImage"
    by code_simp
  have e: "drawComponents env0 [linkedImage]
   = [DeleteAllShapes,
      CreateShape \<lparr> d_id = ''shape:placeholder-0-0'', d_type = KGeo, d_x = Fin 10, d_y = Fin 20,
        d_rotation = None, d_parentId = None,
        d_props = GeoProps Rectangle Grey FillPattern SizeM (Fin 200) (Fin 150) \<rparr>,
      ZoomToFit]" by code_simp
  have p: "map (\<lambda>d. (d_x d, d_y d, props_size (d_props d)))
        (shapes_of (fst (renderImageComponent env0 linkedImage 0 0 0 0 None 0)))
      = [(Fin 10, Fin 20, Some (Fin 200, Fin 150))]" by code_simp
  from C6_image_fallback [OF d, where env = env0 and index = 0 and frameX = 0 and frameY = 0
      and slideIndex = 0 and frameId = None and n = 0 and c' = inlineImage
      and mimeType = "''image/png''"] e i p
  show ?thesis by simp
qed

text \<open>
  C7 (as amended). For a component with non-zero rotation \<open>r\<close> degrees, with
  \<open>\<theta> = r \<sqdot> \<pi> / 180\<close>: a text component is placed at
  \<open>(cx - (w/2) cos \<theta> + (h/2) sin \<theta>, cy - (w/2) sin \<theta> - (h/2) cos \<theta>)\<close> with
  \<open>cx = x + w/2\<close>, \<open>cy = y + h/2\<close>, and its rotation field is \<open>\<theta>\<close>; a shape component and
  an image component whose data URL decodes keep the position \<open>(x, y)\<close> and have the
  rotation field \<open>\<theta>\<close>; the placeholder of an image component that has no data URL keeps
  the position and has no rotation field.
\<close>

theorem C7_rotation:
  assumes "c_rotation c = Some r" and "r \<noteq> 0"
  shows "(let \<theta> = r * pi / 180;
              x = place frameId frameX (c_x c);
              y = place frameId frameY (c_y c);
              w = or_num (c_width c) 0;
              h = or_num (c_height c) 0;
              cx = x + w / 2;
              cy = y + h / 2
          in map (\<lambda>d. (d_x d, d_y d, d_rotation d))
               (shapes_of (renderTextComponent c index frameX frameY slideIndex frameId))
             = [(Fin (cx - (w / 2) * cos \<theta> + (h / 2) * sin \<theta>),
                 Fin (cy - (w / 2) * sin \<theta> - (h / 2) * cos \<theta>), Some (Fin \<theta>))]
           \<and> map (\<lambda>d. (d_x d, d_y d, d_rotation d))
               (shapes_of (renderShapeComponent c index frameX frameY slideIndex frameId))
             = [(Fin x, Fin y, Some (Fin \<theta>))]
           \<and> (data_url c \<and> fetchBlob env (the (meta_of m_imageUrl c)) = Blob mimeType
               \<longrightarrow> map (\<lambda>d. (d_x d, d_y d, d_rotation d))
                     (shapes_of (fst (renderImageComponent env c index frameX frameY slideIndex
                        frameId n)))
                   = [(Fin x, Fin y, Some (Fin \<theta>))])
           \<and> (\<not> data_url c
               \<longrightarrow> map (\<lambda>d. (d_x d, d_y d, d_rotation d))
                     (shapes_of (fst (renderImageComponent env c index frameX frameY slideIndex
                        frameId n)))
                   = [(Fin x, Fin y, None)]))"
proof -
  have rot: "rotationRad c = r * pi / 180"
    using assms by (simp add: rotationRad_def truthy_num_def Math_PI_def)
  have t: "map (\<lambda>d. (d_x d, d_y d, d_rotation d))
               (shapes_of (renderTextComponent c index frameX frameY slideIndex frameId))
        = [(Fin (place frameId frameX (c_x c) + or_num (c_width c) 0 / 2
                 - (or_num (c_width c) 0 / 2) * cos (r * pi / 180)
                 + (or_num (c_height c) 0 / 2) * sin (r * pi / 180)),
            Fin (place frameId frameY (c_y c) + or_num (c_height c) 0 / 2
                 - (or_num (c_width c) 0 / 2) * sin (r * pi / 180)
                 - (or_num (c_height c) 0 / 2) * cos (r * pi / 180)),
            Some (Fin (r * pi / 180)))]"
    using assms
    by (simp add: renderTextComponent_def textCorner_def Let_def with_parent_fields rot
          truthy_num_def Math_PI_def Math_cos_def Math_sin_def)
  have s: "map (\<lambda>d. (d_x d, d_y d, d_rotation d))
               (shapes_of (renderShapeComponent c index frameX frameY slideIndex frameId))
             = [(Fin (place frameId frameX (c_x c)), Fin (place frameId frameY (c_y c)),
                 Some (Fin (r * pi / 180)))]"
    by (simp add: renderShapeComponent_def Let_def with_parent_fields rot)
  have i: "map (\<lambda>d. (d_x d, d_y d, d_rotation d))
                     (shapes_of (fst (renderImageComponent env c index frameX frameY slideIndex
                        frameId n)))
                   = [(Fin (place frameId frameX (c_x c)), Fin (place frameId frameY (c_y c)),
                       Some (Fin (r * pi / 180)))]"
    if "data_url c" "fetchBlob env (the (meta_of m_imageUrl c)) = Blob mimeType"
    using that by (simp add: renderImage_resolved with_parent_fields rot)
  have p: "map (\<lambda>d. (d_x d, d_y d, d_rotation d))
                     (shapes_of (fst (renderImageComponent env c index frameX frameY slideIndex
                        frameId n)))
                   = [(Fin (place frameId frameX (c_x c)), Fin (place frameId frameY (c_y c)), None)]"
    if "\<not> data_url c"
    using that by (simp add: renderImage_placeholder placeholderRect_def with_parent_fields)
  from t s i p show ?thesis
    by (simp only: Let_def) blast
qed

theorem C7_rotation_witness:
  "map (\<lambda>d. (d_x d, d_y d, d_rotation d)) (shapes_of (renderTextComponent rotatedText 0 0 0 0 None))
     = [(Fin 150, Fin 120, Some (Fin pi))]
   \<and> map (\<lambda>d. (d_x d, d_y d, d_rotation d)) (shapes_of (renderShapeComponent rotatedText 0 0 0 0 None))
     = [(Fin 100, Fin 100, Some (Fin pi))]
   \<and> map (\<lambda>d. (d_x d, d_y d, d_rotation d))
        (shapes_of (fst (renderImageComponent env0 inlineImage 0 0 0 0 None 0)))
     = [(Fin 10, Fin 20, Some (Fin pi))]
   \<and> map (\<lambda>d. (d_x d, d_y d, d_rotation d))
        (shapes_of (fst (renderImageComponent env0 linkedImage 0 0 0 0 None 0)))
     = [(Fin 10, Fin 20, None)]"
proof -
  have r: "c_rotation rotatedText = Some 180" "(180::real) \<noteq> 0"
    by (simp_all add: rotatedText_def emptyComponent_def)
  have v: "place None 0 (c_x rotatedText) = 100" "place None 0 (c_y rotatedText) = 100"
    "or_num (c_width rotatedText) 0 = 50" "or_num (c_height rotatedText) 0 = 20"
    by (simp_all add: rotatedText_def emptyComponent_def place_def or_num_def truthy_str_def)
  have ri: "c_rotation inlineImage = Some 180"
    by (simp add: inlineImage_def emptyComponent_def)
  have di: "data_url inlineImage \<and> fetchBlob env0 (the (meta_of m_imageUrl inlineImage)) = Blob ''image/png''"
    by code_simp
  have vi: "place None 0 (c_x inlineImage) = 10" "place None 0 (c_y inlineImage) = 20"
    by (simp_all add: inlineImage_def emptyComponent_def place_def or_num_def truthy_str_def)
  have rl: "c_rotation linkedImage = Some 90" "(90::real) \<noteq> 0"
    by (simp_all add: linkedImage_def emptyComponent_def)
  have dl: "\<not> data_url linkedImage" by code_simp
  have vl: "place None 0 (c_x linkedImage) = 10" "place None 0 (c_y linkedImage) = 20"
    by (simp_all add: linkedImage_def emptyComponent_def place_def or_num_def truthy_str_def)
  from C7_rotation [OF r, where frameId = None and frameX = 0 and frameY = 0 and index = 0
      and slideIndex = 0 and env = env0 and mimeType = "''image/png''" and n = 0] v
  have a: "map (\<lambda>d. (d_x d, d_y d, d_rotation d)) (shapes_of (renderTextComponent rotatedText 0 0 0 0 None))
     = [(Fin 150, Fin 120, Some (Fin pi))]
   \<and> map (\<lambda>d. (d_x d, d_y d, d_rotation d)) (shapes_of (renderShapeComponent rotatedText 0 0 0 0 None))
     = [(Fin 100, Fin 100, Some (Fin pi))]"
    by (simp add: Let_def)
  from C7_rotation [OF ri r(2), where frameId = None and frameX = 0 and frameY = 0 and index = 0
      and slideIndex = 0 and env = env0 and mimeType = "''image/png''" and n = 0] di vi
  have b: "map (\<lambda>d. (d_x d, d_y d, d_rotation d))
        (shapes_of (fst (renderImageComponent env0 inlineImage 0 0 0 0 None 0)))
     = [(Fin 10, Fin 20, Some (Fin pi))]"
    by (simp add: Let_def)
  from C7_rotation [OF rl, where frameId = None and frameX = 0 and frameY = 0 and index = 0
      and slideIndex = 0 and env = env0 and mimeType = "''image/png''" and n = 0] dl vl
  have c: "map (\<lambda>d. (d_x d, d_y d, d_rotation d))
        (shapes_of (fst (renderImageComponent env0 linkedImage 0 0 0 0 None 0)))
     = [(Fin 10, Fin 20, None)]"
    by (simp add: Let_def)
  from a b c show ?thesis by simp
qed

theorem C7_counterexample:
  "c_type linkedImage = ''image'' \<and> c_rotation linkedImage = Some 90
   \<and> map d_rotation (shapes_of (drawComponents env0 [linkedImage])) = [None]
   \<and> map d_rotation (shapes_of (drawComponents env0 [linkedImage])) \<noteq> [Some (Fin (90 * pi / 180))]"
proof -
  have "c_type linkedImage = ''image'' \<and> c_rotation linkedImage = Some 90
   \<and> map d_rotation (shapes_of (drawComponents env0 [linkedImage])) = [None]"
    by code_simp
  then show ?thesis by simp
qed

subsection \<open>Table decomposition\<close>

lemma concat_rows:
  "concat (map (\<lambda>(rowIndex, row). concat (map (\<lambda>(colIndex, cell). F rowIndex colIndex cell)
      (enumerate 0 row))) rows)
   = concat (map (\<lambda>(rowIndex, colIndex, cell). F rowIndex colIndex cell)
      (concat (map (\<lambda>(rowIndex, row). map (\<lambda>(colIndex, cell). (rowIndex, colIndex, cell))
        (enumerate 0 row)) rows)))"
  by (induction rows) (auto simp: comp_def case_prod_beta)

lemma renderTable_cells:
  "renderTableComponent c index frameX frameY slideIndex frameId
   = concat (map (\<lambda>(rowIndex, colIndex, cell).
       renderCell c index slideIndex frameId (place frameId frameX (c_x c))
         (place frameId frameY (c_y c)) rowIndex colIndex cell)
       (cells_with_index (tableDataOf c)))"
proof (cases "tableDataOf c = []")
  case True
  then show ?thesis
    by (simp add: renderTableComponent_def cells_with_index_def enumerate_eq_zip)
next
  case False
  then show ?thesis
    by (simp only: renderTableComponent_def Let_def cells_with_index_def concat_rows
          length_0_conv if_False)
qed

lemma length_cells_with_index: "length (cells_with_index grid) = length (concat grid)"
proof -
  have "length (concat (map (\<lambda>(rowIndex, row). map (\<lambda>(colIndex, cell). (rowIndex, colIndex, cell))
       (enumerate 0 row)) rows)) = length (concat (map snd rows))" for rows :: "(nat \<times> 'a list) list"
    by (induction rows) (auto simp: case_prod_beta)
  from this [of "enumerate 0 grid"] show ?thesis
    by (simp add: cells_with_index_def)
qed

lemma cells_of_cells_with_index: "map (\<lambda>(rowIndex, colIndex, cell). cell) (cells_with_index grid) = concat grid"
proof -
  have "map (\<lambda>(rowIndex, colIndex, cell). cell) (concat (map (\<lambda>(rowIndex, row). map (\<lambda>(colIndex, cell). (rowIndex, colIndex, cell))
       (enumerate 0 row)) rows)) = concat (map snd rows)" for rows :: "(nat \<times> 'a list) list"
    by (induction rows) (auto simp: case_prod_beta comp_def)
  from this [of "enumerate 0 grid"] show ?thesis
    by (simp add: cells_with_index_def)
qed

lemma geo_shapes_concat: "geo_shapes (concat xss) = concat (map geo_shapes xss)"
  by (induction xss) (simp_all add: geo_shapes_def shapes_of_append)

lemma text_shapes_concat: "text_shapes (concat xss) = concat (map text_shapes xss)"
  by (induction xss) (simp_all add: text_shapes_def shapes_of_append)

lemma geo_shapes_renderCell:
  "map (\<lambda>d. (d_x d, d_y d, props_size (d_props d)))
     (geo_shapes (renderCell c index slideIndex frameId tableX tableY rowIndex colIndex cell))
   = [(nadd (Fin tableX) (nmul (Fin (real colIndex)) (cellWidth c)),
       nadd (Fin tableY) (nmul (Fin (real rowIndex)) (cellHeight c)),
       Some (cellWidth c, cellHeight c))]"
  by (simp add: geo_shapes_def renderCell_def Let_def with_parent_fields d_type_with_parent)

lemma text_shapes_renderCell:
  "map d_props
     (text_shapes (renderCell c index slideIndex frameId tableX tableY rowIndex colIndex cell))
   = (if trim cell \<noteq> [] then [TextProps (ToRichText cell) Black SizeS FontSans None None] else [])"
proof -
  have "trim [] = []" by (simp add: trim_def)
  then have "(cell \<noteq> [] \<and> trim cell \<noteq> []) = (trim cell \<noteq> [])" by auto
  then show ?thesis
    by (simp add: text_shapes_def renderCell_def Let_def with_parent_fields d_type_with_parent)
qed

lemma map_concat_singletons:
  "(\<And>x. x \<in> set xs \<Longrightarrow> map f (g x) = [h x]) \<Longrightarrow> map f (concat (map g xs)) = map h xs"
  by (induction xs) simp_all

lemma map_concat_optional:
  "(\<And>x. x \<in> set xs \<Longrightarrow> map f (g x) = (if P x then [h x] else []))
   \<Longrightarrow> map f (concat (map g xs)) = map h (filter P xs)"
  by (induction xs) simp_all

lemma geo_shapes_renderTable:
  "map (\<lambda>d. (d_x d, d_y d, props_size (d_props d)))
     (geo_shapes (renderTableComponent c index frameX frameY slideIndex frameId))
   = map (\<lambda>(rowIndex, colIndex, cell).
        (nadd (Fin (place frameId frameX (c_x c))) (nmul (Fin (real colIndex)) (cellWidth c)),
         nadd (Fin (place frameId frameY (c_y c))) (nmul (Fin (real rowIndex)) (cellHeight c)),
         Some (cellWidth c, cellHeight c)))
       (cells_with_index (tableDataOf c))"
  unfolding renderTable_cells geo_shapes_concat map_map
  by (rule map_concat_singletons) (simp add: geo_shapes_renderCell case_prod_beta)

lemma text_shapes_renderTable:
  "map d_props (text_shapes (renderTableComponent c index frameX frameY slideIndex frameId))
   = map (\<lambda>cell. TextProps (ToRichText cell) Black SizeS FontSans None None)
       (filter (\<lambda>cell. trim cell \<noteq> []) (concat (tableDataOf c)))"
proof -
  have "map d_props (text_shapes (renderTableComponent c index frameX frameY slideIndex frameId))
      = map (\<lambda>(rowIndex, colIndex, cell). TextProps (ToRichText cell) Black SizeS FontSans None None)
          (filter (\<lambda>(rowIndex, colIndex, cell). trim cell \<noteq> []) (cells_with_index (tableDataOf c)))"
    unfolding renderTable_cells text_shapes_concat map_map
    by (rule map_concat_optional) (simp add: text_shapes_renderCell case_prod_beta)
  also have "\<dots> = map (\<lambda>cell. TextProps (ToRichText cell) Black SizeS FontSans None None)
      (filter (\<lambda>cell. trim cell \<noteq> [])
        (map (\<lambda>(rowIndex, colIndex, cell). cell) (cells_with_index (tableDataOf c))))"
  proof -
    have "map (\<lambda>(rowIndex, colIndex, cell). h cell)
            (filter (\<lambda>(rowIndex, colIndex, cell). P cell) xs)
          = map h (filter P (map (\<lambda>(rowIndex, colIndex, cell). cell) xs))"
      for h :: "string \<Rightarrow> props" and P and xs :: "(nat \<times> nat \<times> string) list"
      by (induction xs) auto
    then show ?thesis .
  qed
  finally show ?thesis
    by (simp only: cells_of_cells_with_index)
qed

lemma shapes_of_concat_mem:
  "d \<in> set (shapes_of (concat (map g xs))) \<Longrightarrow> \<exists>x \<in> set xs. d \<in> set (shapes_of (g x))"
  by (induction xs) (auto simp: shapes_of_append)

lemma shapes_of_renderTable_mem:
  assumes "d \<in> set (shapes_of (renderTableComponent c index frameX frameY slideIndex frameId))"
  shows "\<exists>rowIndex colIndex cell.
           d \<in> set (shapes_of (renderCell c index slideIndex frameId (place frameId frameX (c_x c))
             (place frameId frameY (c_y c)) rowIndex colIndex cell))"
proof -
  let ?G = "\<lambda>(rowIndex, colIndex, cell).
       renderCell c index slideIndex frameId (place frameId frameX (c_x c))
         (place frameId frameY (c_y c)) rowIndex colIndex cell"
  from assms have "d \<in> set (shapes_of (concat (map ?G (cells_with_index (tableDataOf c)))))"
    by (simp only: renderTable_cells)
  then have "\<exists>x \<in> set (cells_with_index (tableDataOf c)). d \<in> set (shapes_of (?G x))"
    by (rule shapes_of_concat_mem)
  then obtain x where x: "d \<in> set (shapes_of (?G x))" ..
  obtain rowIndex colIndex cell where "x = (rowIndex, colIndex, cell)"
    by (cases x) auto
  with x have "d \<in> set (shapes_of (renderCell c index slideIndex frameId (place frameId frameX (c_x c))
             (place frameId frameY (c_y c)) rowIndex colIndex cell))"
    by simp
  then show ?thesis by (intro exI)
qed

lemma shapes_split_renderTable:
  "length (shapes_of (renderTableComponent c index frameX frameY slideIndex frameId))
   = length (geo_shapes (renderTableComponent c index frameX frameY slideIndex frameId))
     + length (text_shapes (renderTableComponent c index frameX frameY slideIndex frameId))"
proof -
  have cell: "d_type d = KGeo \<or> d_type d = KText"
    if "d \<in> set (shapes_of (renderCell c index slideIndex frameId tableX tableY rowIndex colIndex cell))"
    for d tableX tableY rowIndex colIndex cell
  proof -
    from that have "d \<in> set (geo_shapes (renderCell c index slideIndex frameId tableX tableY rowIndex colIndex cell))
        \<or> d \<in> set (text_shapes (renderCell c index slideIndex frameId tableX tableY rowIndex colIndex cell))"
      by (simp add: geo_shapes_def text_shapes_def renderCell_def Let_def d_type_with_parent
            split: if_splits)
    then show ?thesis
      by (auto simp: geo_shapes_def text_shapes_def)
  qed
  have A: "\<forall>d \<in> set (shapes_of (renderTableComponent c index frameX frameY slideIndex frameId)).
          d_type d = KGeo \<or> d_type d = KText"
    using cell shapes_of_renderTable_mem by blast
  have B: "length ds = length (filter (\<lambda>d. d_type d = KGeo) ds)
      + length (filter (\<lambda>d. d_type d = KText) ds)"
    if "\<forall>d \<in> set ds. d_type d = KGeo \<or> d_type d = KText" for ds :: "descriptor list"
    using that by (induction ds) auto
  show ?thesis
    unfolding geo_shapes_def text_shapes_def by (rule B [OF A])
qed

lemma length_geo_shapes_renderTable:
  "length (geo_shapes (renderTableComponent c index frameX frameY slideIndex frameId))
   = length (concat (tableDataOf c))"
proof -
  have "length (map (\<lambda>d. (d_x d, d_y d, props_size (d_props d)))
     (geo_shapes (renderTableComponent c index frameX frameY slideIndex frameId)))
     = length (cells_with_index (tableDataOf c))"
    by (simp only: geo_shapes_renderTable length_map)
  then show ?thesis
    by (simp add: length_cells_with_index)
qed

lemma length_concat_rectangular:
  "\<forall>row \<in> set grid. real (length row) = k \<Longrightarrow> real (length (concat grid)) = real (length grid) * k"
  by (induction grid) (simp_all add: algebra_simps)

text \<open>
  C5 (as amended). The decomposition of a table emits one background cell for each cell of
  \<open>tableData\<close>, in row-major order, the cell of row \<open>i\<close> and column \<open>j\<close> at
  \<open>(tableX + j \<sqdot> cellWidth, tableY + i \<sqdot> cellHeight)\<close> with size
  \<open>(cellWidth, cellHeight) = (width / cols, height / rows)\<close>, and one text descriptor for each
  cell whose content is non-empty after trimming, and nothing else; these are
  \<open>rows \<times> cols\<close> background cells when \<open>tableData\<close> has \<open>rows\<close> rows of \<open>cols\<close> cells
  each. Here \<open>rows\<close> is \<open>metadata.rows\<close> when it is present and not 0, the number of rows of
  \<open>tableData\<close> otherwise, and \<open>cols\<close> is \<open>metadata.cols\<close> when it is present and not 0, the
  length of the first row of \<open>tableData\<close> otherwise (0 when there is none). An empty
  \<open>tableData\<close> emits nothing. The table with \<open>rows = 3\<close>, \<open>cols = 2\<close> and two empty cells
  emits 6 background cells and 4 text descriptors; the cell of a one-cell grid whose metadata
  says 3 rows and 2 columns has size (150, 50), and the cells of a grid without metadata
  whose rows have 2 and 1 cells have size (150, 75).
\<close>

theorem C5_table_decomposition:
  "(let tableData = tableDataOf c;
        tableX = place frameId frameX (c_x c);
        tableY = place frameId frameY (c_y c);
        calls = renderTableComponent c index frameX frameY slideIndex frameId
    in map (\<lambda>d. (d_x d, d_y d, props_size (d_props d))) (geo_shapes calls)
         = map (\<lambda>(rowIndex, colIndex, cell).
             (nadd (Fin tableX) (nmul (Fin (real colIndex)) (cellWidth c)),
              nadd (Fin tableY) (nmul (Fin (real rowIndex)) (cellHeight c)),
              Some (cellWidth c, cellHeight c)))
             (cells_with_index tableData)
       \<and> length (geo_shapes calls) = length (concat tableData)
       \<and> map d_props (text_shapes calls)
         = map (\<lambda>cell. TextProps (ToRichText cell) Black SizeS FontSans None None)
             (filter (\<lambda>cell. trim cell \<noteq> []) (concat tableData))
       \<and> length (shapes_of calls) = length (geo_shapes calls) + length (text_shapes calls)
       \<and> assets_of calls = []
       \<and> (tableData = [] \<longrightarrow> calls = [])
       \<and> tableRows c
           = (case meta_of m_rows c of
                None \<Rightarrow> real (length tableData)
              | Some rows \<Rightarrow> if rows = 0 then real (length tableData) else rows)
       \<and> tableCols c
           = (case meta_of m_cols c of
                None \<Rightarrow> (case tableData of [] \<Rightarrow> 0 | row # rest \<Rightarrow> real (length row))
              | Some cols \<Rightarrow>
                  if cols = 0
                  then (case tableData of [] \<Rightarrow> 0 | row # rest \<Rightarrow> real (length row))
                  else cols)
       \<and> (tableCols c \<noteq> 0 \<longrightarrow> cellWidth c = Fin (or_num (c_width c) 300 / tableCols c))
       \<and> (tableData \<noteq> [] \<longrightarrow> cellHeight c = Fin (or_num (c_height c) 150 / tableRows c))
       \<and> ((\<forall>row \<in> set tableData. real (length row) = tableCols c)
            \<and> real (length tableData) = tableRows c
          \<longrightarrow> real (length (geo_shapes calls)) = tableRows c * tableCols c))
   \<and> length (geo_shapes (renderTableComponent exampleTable 0 0 0 0 None)) = 6
   \<and> length (text_shapes (renderTableComponent exampleTable 0 0 0 0 None)) = 4
   \<and> meta_of m_rows mislabelledTable = Some 3 \<and> meta_of m_cols mislabelledTable = Some 2
   \<and> map (\<lambda>d. props_size (d_props d))
        (geo_shapes (renderTableComponent mislabelledTable 0 0 0 0 None))
      = [Some (Fin 150, Fin 50)]
   \<and> meta_of m_rows raggedTable = None \<and> meta_of m_cols raggedTable = None
   \<and> map (\<lambda>d. props_size (d_props d))
        (geo_shapes (renderTableComponent raggedTable 0 0 0 0 None))
      = [Some (Fin 150, Fin 75), Some (Fin 150, Fin 75), Some (Fin 150, Fin 75)]"
proof -
  let ?calls = "renderTableComponent c index frameX frameY slideIndex frameId"
  have pr: "tableRows c
           = (case meta_of m_rows c of
                None \<Rightarrow> real (length (tableDataOf c))
              | Some rows \<Rightarrow> if rows = 0 then real (length (tableDataOf c)) else rows)"
    by (simp add: tableRows_def or_num_def split: option.splits)
  have pc: "tableCols c
           = (case meta_of m_cols c of
                None \<Rightarrow> (case tableDataOf c of [] \<Rightarrow> 0 | row # rest \<Rightarrow> real (length row))
              | Some cols \<Rightarrow>
                  if cols = 0
                  then (case tableDataOf c of [] \<Rightarrow> 0 | row # rest \<Rightarrow> real (length row))
                  else cols)"
    by (simp add: tableCols_def firstRowLength_def or_num_def split: option.splits list.splits)
  have ms: "meta_of m_rows mislabelledTable = Some 3 \<and> meta_of m_cols mislabelledTable = Some 2
   \<and> map (\<lambda>d. props_size (d_props d))
        (geo_shapes (renderTableComponent mislabelledTable 0 0 0 0 None))
      = [Some (Fin 150, Fin 50)]
   \<and> meta_of m_rows raggedTable = None \<and> meta_of m_cols raggedTable = None
   \<and> map (\<lambda>d. props_size (d_props d))
        (geo_shapes (renderTableComponent raggedTable 0 0 0 0 None))
      = [Some (Fin 150, Fin 75), Some (Fin 150, Fin 75), Some (Fin 150, Fin 75)]"
    by code_simp
  have e: "?calls = []" if "tableDataOf c = []"
    using that by (simp add: renderTableComponent_def)
  have a: "assets_of ?calls = []"
  proof -
    have app: "assets_of (xs @ ys) = assets_of xs @ assets_of ys" for xs ys
      by (induction xs rule: assets_of.induct) simp_all
    have cc: "assets_of (concat (map g xs)) = []" if "\<And>x. assets_of (g x) = []"
      for g :: "nat \<times> nat \<times> string \<Rightarrow> call list" and xs
      using that by (induction xs) (simp_all add: app)
    show ?thesis
      unfolding renderTable_cells
      by (rule cc) (simp add: renderCell_def Let_def case_prod_beta)
  qed
  have w: "cellWidth c = Fin (or_num (c_width c) 300 / tableCols c)" if "tableCols c \<noteq> 0"
    using that by (simp add: cellWidth_def)
  have r0: "tableRows c \<noteq> 0" if "tableDataOf c \<noteq> []"
    using that by (simp add: tableRows_def or_num_def split: option.splits)
  have h: "cellHeight c = Fin (or_num (c_height c) 150 / tableRows c)" if "tableDataOf c \<noteq> []"
    using r0 [OF that] by (simp add: cellHeight_def)
  have rc: "real (length (geo_shapes ?calls)) = tableRows c * tableCols c"
    if "\<forall>row \<in> set (tableDataOf c). real (length row) = tableCols c"
      and "real (length (tableDataOf c)) = tableRows c"
    using length_concat_rectangular [OF that(1)] that(2)
    by (simp add: length_geo_shapes_renderTable)
  have x6: "length (geo_shapes (renderTableComponent exampleTable 0 0 0 0 None)) = 6"
    by code_simp
  have x4: "length (text_shapes (renderTableComponent exampleTable 0 0 0 0 None)) = 4"
    by code_simp
  from e a w h rc x6 x4 show ?thesis
    by (simp only: Let_def geo_shapes_renderTable text_shapes_renderTable
          length_geo_shapes_renderTable shapes_split_renderTable simp_thms)
       (insert pr pc ms, blast)
qed

theorem C5_table_decomposition_witness:
  "tableRows exampleTable = 3 \<and> tableCols exampleTable = 2
   \<and> list_all (\<lambda>row. length row = 2) (tableDataOf exampleTable)
   \<and> length (tableDataOf exampleTable) = 3
   \<and> real (length (geo_shapes (renderTableComponent exampleTable 0 0 0 0 None)))
       = tableRows exampleTable * tableCols exampleTable
   \<and> length (geo_shapes (renderTableComponent exampleTable 0 0 0 0 None)) = 6
   \<and> cellWidth exampleTable = Fin 150 \<and> cellHeight exampleTable = Fin 50
   \<and> map (\<lambda>d. (d_x d, d_y d)) (geo_shapes (renderTableComponent exampleTable 0 0 0 0 None))
     = [(Fin 0, Fin 0), (Fin 150, Fin 0), (Fin 0, Fin 50), (Fin 150, Fin 50),
        (Fin 0, Fin 100), (Fin 150, Fin 100)]
   \<and> tableRows mislabelledTable = 3 \<and> tableCols mislabelledTable = 2
   \<and> tableRows raggedTable = 2 \<and> tableCols raggedTable = 2"
proof -
  have mt: "meta_of m_rows mislabelledTable = Some 3" "meta_of m_cols mislabelledTable = Some 2"
    "meta_of m_rows raggedTable = None" "meta_of m_cols raggedTable = None"
    "tableDataOf raggedTable = [[''a'', ''b''], [''c'']]"
    by code_simp+
  from C5_table_decomposition [where c = mislabelledTable and frameId = None and frameX = 0
      and frameY = 0 and index = 0 and slideIndex = 0] mt
  have m1: "tableRows mislabelledTable = 3 \<and> tableCols mislabelledTable = 2"
    by (simp add: Let_def)
  from C5_table_decomposition [where c = raggedTable and frameId = None and frameX = 0
      and frameY = 0 and index = 0 and slideIndex = 0] mt
  have m2: "tableRows raggedTable = 2 \<and> tableCols raggedTable = 2"
    by (simp add: Let_def)
  have t: "tableDataOf exampleTable = [[''a'', ''b''], ['''', ''c''], ['' '', ''d'']]"
    by code_simp
  have r: "tableRows exampleTable = 3" and k: "tableCols exampleTable = 2"
    by (simp_all add: tableRows_def tableCols_def exampleTable_def emptyComponent_def
          tableMetadata_def emptyMetadata_def meta_of_def or_num_def)
  have wh: "or_num (c_width exampleTable) 300 = 300" "or_num (c_height exampleTable) 150 = 150"
    by (simp_all add: exampleTable_def emptyComponent_def or_num_def)
  have xy: "map (\<lambda>d. (d_x d, d_y d)) (geo_shapes (renderTableComponent exampleTable 0 0 0 0 None))
     = [(Fin 0, Fin 0), (Fin 150, Fin 0), (Fin 0, Fin 50), (Fin 150, Fin 50),
        (Fin 0, Fin 100), (Fin 150, Fin 100)]"
    by code_simp
  from C5_table_decomposition [where c = exampleTable and frameId = None and frameX = 0
      and frameY = 0 and index = 0 and slideIndex = 0] t r k wh xy m1 m2
  show ?thesis by (simp add: Let_def)
qed

theorem C5_counterexample:
  "tableDataOf raggedTable = [[''a'', ''b''], [''c'']]
   \<and> tableRows raggedTable * tableCols raggedTable = 4
   \<and> length (geo_shapes (drawComponents env0 [raggedTable])) = 3
   \<and> tableDataOf mislabelledTable = [[''a'']]
   \<and> tableRows mislabelledTable * tableCols mislabelledTable = 6
   \<and> length (geo_shapes (drawComponents env0 [mislabelledTable])) = 1"
proof -
  have "tableRows raggedTable = 2" "tableCols raggedTable = 2"
    "tableRows mislabelledTable = 3" "tableCols mislabelledTable = 2"
    by (simp_all add: tableRows_def tableCols_def raggedTable_def mislabelledTable_def
          emptyComponent_def tableMetadata_def emptyMetadata_def meta_of_def or_num_def
          tableDataOf_def firstRowLength_def)
  moreover have "tableDataOf raggedTable = [[''a'', ''b''], [''c'']]
      \<and> length (geo_shapes (drawComponents env0 [raggedTable])) = 3
      \<and> tableDataOf mislabelledTable = [[''a'']]
      \<and> length (geo_shapes (drawComponents env0 [mislabelledTable])) = 1"
    by code_simp
  ultimately show ?thesis by simp
qed

lemma nonfinite_cases: "\<not> is_finite v \<longleftrightarrow> v = PosInf \<or> v = NegInf \<or> v = NaN"
  by (cases v) simp_all

lemma cellX_zero_cols:
  assumes "cw = PosInf \<or> cw = NegInf"
  shows "nadd (Fin tableX) (nmul (Fin (real colIndex)) cw) = (if colIndex = 0 then NaN else cw)"
  using assms by (auto simp: signed_inf_def)

text \<open>
  C10. The cell width is \<open>width / cols\<close> with no guard against \<open>cols = 0\<close>: when
  \<open>metadata.cols\<close> is absent and the first row of a non-empty \<open>tableData\<close> is empty, the
  divisor is 0, the cell width is not finite, and every cell emitted (from a later,
  non-empty row) has an x-coordinate that is infinite or NaN.
\<close>

theorem C10_zero_columns:
  assumes "meta_of m_cols c = None" and "tableDataOf c = [] # rest"
  shows "tableCols c = 0
    \<and> cellWidth c = ndiv (Fin (or_num (c_width c) 300)) (Fin 0)
    \<and> \<not> is_finite (cellWidth c)
    \<and> (\<forall>d \<in> set (shapes_of (renderTableComponent c index frameX frameY slideIndex frameId)).
          \<not> is_finite (d_x d))
    \<and> map d_x (geo_shapes (renderTableComponent c index frameX frameY slideIndex frameId))
        = map (\<lambda>(rowIndex, colIndex, cell). if colIndex = 0 then NaN else cellWidth c)
            (cells_with_index (tableDataOf c))"
proof -
  have k: "tableCols c = 0"
    using assms by (simp add: tableCols_def firstRowLength_def or_num_def)
  have nz: "or_num (c_width c) 300 \<noteq> 0"
    by (simp add: or_num_def split: option.splits)
  have cw: "cellWidth c = PosInf \<or> cellWidth c = NegInf"
    using nz by (simp add: cellWidth_def k signed_inf_def)
  then have nf: "\<not> is_finite (cellWidth c)" by auto
  have cell: "\<not> is_finite (d_x d)"
    if "d \<in> set (shapes_of (renderCell c index slideIndex frameId tableX tableY rowIndex colIndex cell))"
    for d tableX tableY rowIndex colIndex cell
  proof -
    let ?x = "nadd (Fin tableX) (nmul (Fin (real colIndex)) (cellWidth c))"
    from that have "d_x d = ?x \<or> d_x d = nadd ?x (Fin 8)"
      by (auto simp: renderCell_def Let_def with_parent_fields split: if_splits)
    moreover have "?x = NaN \<or> ?x = PosInf \<or> ?x = NegInf"
      using cw by (simp add: cellX_zero_cols)
    ultimately show ?thesis by auto
  qed
  have all: "\<forall>d \<in> set (shapes_of (renderTableComponent c index frameX frameY slideIndex frameId)).
          \<not> is_finite (d_x d)"
    using cell shapes_of_renderTable_mem by blast
  have "map d_x (geo_shapes (renderTableComponent c index frameX frameY slideIndex frameId))
      = map fst (map (\<lambda>d. (d_x d, d_y d, props_size (d_props d)))
          (geo_shapes (renderTableComponent c index frameX frameY slideIndex frameId)))"
    by (simp add: comp_def)
  also have "\<dots> = map (\<lambda>(rowIndex, colIndex, cell).
        nadd (Fin (place frameId frameX (c_x c))) (nmul (Fin (real colIndex)) (cellWidth c)))
      (cells_with_index (tableDataOf c))"
    by (simp only: geo_shapes_renderTable) (simp add: comp_def case_prod_beta)
  also have "\<dots> = map (\<lambda>(rowIndex, colIndex, cell). if colIndex = 0 then NaN else cellWidth c)
            (cells_with_index (tableDataOf c))"
    using cw by (simp add: cellX_zero_cols)
  finally have xs: "map d_x (geo_shapes (renderTableComponent c index frameX frameY slideIndex frameId))
        = map (\<lambda>(rowIndex, colIndex, cell). if colIndex = 0 then NaN else cellWidth c)
            (cells_with_index (tableDataOf c))" .
  have w: "cellWidth c = ndiv (Fin (or_num (c_width c) 300)) (Fin 0)"
    by (simp only: cellWidth_def k)
  from k w nf all xs show ?thesis by blast
qed

theorem C10_zero_columns_witness:
  "meta_of m_cols headlessTable = None \<and> tableDataOf headlessTable = [[], [''a'', ''b'']]
   \<and> cellWidth headlessTable = PosInf
   \<and> map d_x (shapes_of (drawComponents env0 [headlessTable])) = [NaN, NaN, PosInf, PosInf]
   \<and> map d_x (geo_shapes (renderTableComponent headlessTable 0 0 0 0 None)) = [NaN, PosInf]"
proof -
  have a: "meta_of m_cols headlessTable = None" by code_simp
  have b: "tableDataOf headlessTable = [] # [[''a'', ''b'']]" by code_simp
  have w: "or_num (c_width headlessTable) 300 = 300"
    by (simp add: headlessTable_def emptyComponent_def or_num_def)
  have e: "map d_x (shapes_of (drawComponents env0 [headlessTable])) = [NaN, NaN, PosInf, PosInf]"
    by code_simp
  have c: "cells_with_index [[], [''a'', ''b'']] = [(1, 0, ''a''), (1, 1, ''b'')]"
    by code_simp
  from C10_zero_columns [OF a b, where index = 0 and frameX = 0 and frameY = 0 and slideIndex = 0
      and frameId = None] w
  have "cellWidth headlessTable = PosInf
    \<and> map d_x (geo_shapes (renderTableComponent headlessTable 0 0 0 0 None))
        = map (\<lambda>(rowIndex, colIndex, cell). if colIndex = 0 then NaN else cellWidth headlessTable)
            (cells_with_index (tableDataOf headlessTable))"
    by (simp add: signed_inf_def)
  with a b c e show ?thesis by simp
qed

subsection \<open>Two runs\<close>

lemma renderImage_two_runs:
  assumes "fetchBlob e1 = fetchBlob e2"
  shows "scene_of (fst (renderImageComponent e1 c index frameX frameY slideIndex frameId n))
         = scene_of (fst (renderImageComponent e2 c index frameX frameY slideIndex frameId n))
       \<and> snd (renderImageComponent e1 c index frameX frameY slideIndex frameId n)
         = snd (renderImageComponent e2 c index frameX frameY slideIndex frameId n)"
  using assms
  by (simp add: renderImageComponent_def Let_def scene_of_def with_parent_def
        split: fetched.splits)

lemma renderComponent_two_runs:
  assumes "fetchBlob e1 = fetchBlob e2"
  shows "scene_of (fst (renderComponent e1 c index frameX frameY slideIndex frameId n))
         = scene_of (fst (renderComponent e2 c index frameX frameY slideIndex frameId n))
       \<and> snd (renderComponent e1 c index frameX frameY slideIndex frameId n)
         = snd (renderComponent e2 c index frameX frameY slideIndex frameId n)"
  using renderImage_two_runs [OF assms]
  by (simp add: renderComponent_def)

lemma renderFrom_two_runs:
  assumes "fetchBlob e1 = fetchBlob e2"
  shows "scene_of (fst (renderFrom e1 cs index frameX frameY slideIndex frameId n))
         = scene_of (fst (renderFrom e2 cs index frameX frameY slideIndex frameId n))
       \<and> snd (renderFrom e1 cs index frameX frameY slideIndex frameId n)
         = snd (renderFrom e2 cs index frameX frameY slideIndex frameId n)"
proof (induction cs arbitrary: index n)
  case Nil
  show ?case by simp
next
  case (Cons c cs)
  obtain a1 m1 where r1: "renderComponent e1 c index frameX frameY slideIndex frameId n = (a1, m1)"
    by (cases "renderComponent e1 c index frameX frameY slideIndex frameId n")
  obtain a2 m2 where r2: "renderComponent e2 c index frameX frameY slideIndex frameId n = (a2, m2)"
    by (cases "renderComponent e2 c index frameX frameY slideIndex frameId n")
  from renderComponent_two_runs [OF assms, of c index frameX frameY slideIndex frameId n] r1 r2
  have h: "scene_of a1 = scene_of a2" "m1 = m2" by simp_all
  obtain b1 k1 where s1: "renderFrom e1 cs (Suc index) frameX frameY slideIndex frameId m1 = (b1, k1)"
    by (cases "renderFrom e1 cs (Suc index) frameX frameY slideIndex frameId m1")
  obtain b2 k2 where s2: "renderFrom e2 cs (Suc index) frameX frameY slideIndex frameId m1 = (b2, k2)"
    by (cases "renderFrom e2 cs (Suc index) frameX frameY slideIndex frameId m1")
  from Cons.IH [of "Suc index" m1] s1 s2
  have t: "scene_of b1 = scene_of b2" "k1 = k2" by simp_all
  show ?case
    using h t r1 r2 s1 s2 by (simp add: scene_of_append)
qed

lemma drawFrom_two_runs:
  assumes "fetchBlob e1 = fetchBlob e2"
  shows "scene_of (fst (drawFrom e1 frameSize slides slideIndex n))
         = scene_of (fst (drawFrom e2 frameSize slides slideIndex n))
       \<and> snd (drawFrom e1 frameSize slides slideIndex n)
         = snd (drawFrom e2 frameSize slides slideIndex n)"
proof (induction slides arbitrary: slideIndex n)
  case Nil
  show ?case by simp
next
  case (Cons s slides)
  let ?x = "real (slideIndex mod 4) * (fst frameSize + 200) + 50"
  let ?y = "real (slideIndex div 4) * (snd frameSize + 200) + 50"
  let ?fid = "createShapeId (''slide-frame-'' @ show_nat slideIndex)"
  let ?frame = "\<lparr> d_id = ?fid, d_type = KFrame, d_x = Fin ?x, d_y = Fin ?y,
            d_rotation = None, d_parentId = None,
            d_props = FrameProps (Fin (fst frameSize)) (Fin (snd frameSize)) (frameName s) \<rparr>"
  obtain a1 m1 where r1: "drawComponentsInFrame e1 (sl_components s) ?x ?y slideIndex (Some ?fid) n = (a1, m1)"
    by (cases "drawComponentsInFrame e1 (sl_components s) ?x ?y slideIndex (Some ?fid) n")
  obtain a2 m2 where r2: "drawComponentsInFrame e2 (sl_components s) ?x ?y slideIndex (Some ?fid) n = (a2, m2)"
    by (cases "drawComponentsInFrame e2 (sl_components s) ?x ?y slideIndex (Some ?fid) n")
  from renderFrom_two_runs [OF assms, of "sortedComponents (sl_components s)" 0 ?x ?y slideIndex "Some ?fid" n]
    r1 r2
  have h: "scene_of a1 = scene_of a2" "m1 = m2"
    by (simp_all add: drawComponentsInFrame_def)
  obtain b1 k1 where s1: "drawFrom e1 frameSize slides (Suc slideIndex) m1 = (b1, k1)"
    by (cases "drawFrom e1 frameSize slides (Suc slideIndex) m1")
  obtain b2 k2 where s2: "drawFrom e2 frameSize slides (Suc slideIndex) m1 = (b2, k2)"
    by (cases "drawFrom e2 frameSize slides (Suc slideIndex) m1")
  from Cons.IH [of "Suc slideIndex" m1] s1 s2
  have t: "scene_of b1 = scene_of b2" "k1 = k2" by simp_all
  have d1: "drawFrom e1 frameSize (s # slides) slideIndex n = (CreateShape ?frame # a1 @ b1, k1)"
    by (simp only: drawFrom.simps Let_def r1 s1 prod.case)
  have s2': "drawFrom e2 frameSize slides (Suc slideIndex) m2 = (b2, k2)"
    using s2 h(2) by simp
  have d2: "drawFrom e2 frameSize (s # slides) slideIndex n = (CreateShape ?frame # a2 @ b2, k2)"
    by (simp only: drawFrom.simps Let_def r2 s2' prod.case)
  show ?case
    using h t by (simp only: d1 d2 fst_conv snd_conv scene_of_Cons scene_of_append simp_thms)
qed

text \<open>
  C2. Two runs of the scene build on the same document, on platforms that decode data URLs
  alike and may hand out different asset identifiers, create the same shapes in the same
  order: equal identifiers, kinds, positions, rotations, parents and style values.
\<close>

theorem C2_two_runs:
  assumes "fetchBlob e1 = fetchBlob e2"
  shows "scene_of (drawSlides e1 slides) = scene_of (drawSlides e2 slides)
    \<and> scene_of (drawComponents e1 components) = scene_of (drawComponents e2 components)
    \<and> map d_id (shapes_of (drawSlides e1 slides)) = map d_id (shapes_of (drawSlides e2 slides))"
proof -
  have w: "scene_of (DeleteAllShapes # calls @ [ZoomToFit]) = scene_of calls" for calls
    by (simp add: scene_of_def shapes_of_append)
  have a: "scene_of (drawSlides e1 slides) = scene_of (drawSlides e2 slides)"
    using drawFrom_two_runs [OF assms, of "maxSlideSize slides" slides 0 0]
    by (simp add: drawSlides_def w)
  have b: "scene_of (drawComponents e1 components) = scene_of (drawComponents e2 components)"
    using renderFrom_two_runs [OF assms, of "sortedComponents components" 0 0 0 0 None 0]
    by (simp add: drawComponents_def drawComponentsInFrame_def w)
  have "map d_id (scene_of calls) = map d_id (shapes_of calls)" for calls
    by (simp add: scene_of_def comp_def)
  with a have c: "map d_id (shapes_of (drawSlides e1 slides)) = map d_id (shapes_of (drawSlides e2 slides))"
    by metis
  from a b c show ?thesis by simp
qed

theorem C2_two_runs_witness:
  "scene_of (drawSlides env0 imageSlides) = scene_of (drawSlides env1 imageSlides)
   \<and> map a_id (assets_of (drawSlides env0 imageSlides)) = [''asset:0'']
   \<and> map a_id (assets_of (drawSlides env1 imageSlides)) = [''asset:other0'']
   \<and> length (scene_of (drawSlides env0 imageSlides)) = 16"
proof -
  have f: "fetchBlob env0 = fetchBlob env1"
    by (simp add: env0_def env1_def)
  have a: "map a_id (assets_of (drawSlides env0 imageSlides)) = [''asset:0'']
   \<and> map a_id (assets_of (drawSlides env1 imageSlides)) = [''asset:other0'']
   \<and> length (scene_of (drawSlides env0 imageSlides)) = 16"
    by code_simp
  from C2_two_runs [OF f, of imageSlides] a show ?thesis by simp
qed

subsection \<open>Identifiers\<close>

lemma digit_char_inj: "a < 10 \<Longrightarrow> b < 10 \<Longrightarrow> digit_char a = digit_char b \<Longrightarrow> a = b"
proof -
  assume a: "a < 10" and b: "b < 10" and e: "digit_char a = digit_char b"
  have d: "distinct ''0123456789''" by simp
  have "a < length ''0123456789''" "b < length ''0123456789''" using a b by simp_all
  with d e show "a = b"
    unfolding digit_char_def by (simp only: nth_eq_iff_index_eq)
qed

lemma digit_char_not_dash: "d < 10 \<Longrightarrow> digit_char d \<noteq> CHR ''-''"
proof -
  assume "d < 10"
  then have "d < length ''0123456789''" by simp
  then have "''0123456789'' ! d \<in> set ''0123456789''" by (rule nth_mem)
  then show ?thesis unfolding digit_char_def by auto
qed

lemma show_nat_not_Nil: "show_nat n \<noteq> []"
  by (subst show_nat.simps) simp

lemma show_nat_small: "n < 10 \<Longrightarrow> show_nat n = [digit_char n]"
  by (subst show_nat.simps) simp

lemma show_nat_big: "\<not> n < 10 \<Longrightarrow> show_nat n = show_nat (n div 10) @ [digit_char (n mod 10)]"
  by (subst show_nat.simps) simp

lemma show_nat_no_dash: "CHR ''-'' \<notin> set (show_nat n)"
proof (induction n rule: show_nat.induct)
  case (1 n)
  show ?case
  proof (cases "n < 10")
    case True
    then show ?thesis using digit_char_not_dash [of n] by (simp add: show_nat_small)
  next
    case False
    have "n mod 10 < 10" by simp
    then have "digit_char (n mod 10) \<noteq> CHR ''-''" by (rule digit_char_not_dash)
    with False "1.IH" show ?thesis by (auto simp: show_nat_big)
  qed
qed

lemma show_nat_inj: "show_nat n = show_nat m \<Longrightarrow> n = m"
proof (induction n arbitrary: m rule: show_nat.induct)
  case (1 n)
  show ?case
  proof (cases "n < 10")
    case True
    note n = this
    show ?thesis
    proof (cases "m < 10")
      case True
      with n "1.prems" show ?thesis
        by (simp add: show_nat_small digit_char_inj)
    next
      case False
      with n "1.prems" show ?thesis
        by (simp add: show_nat_small show_nat_big show_nat_not_Nil show_nat_not_Nil [symmetric])
    qed
  next
    case False
    note n = this
    show ?thesis
    proof (cases "m < 10")
      case True
      with n "1.prems" show ?thesis
        by (simp add: show_nat_small show_nat_big show_nat_not_Nil show_nat_not_Nil [symmetric])
    next
      case False
      with n "1.prems" have "show_nat (n div 10) = show_nat (m div 10)"
        and "digit_char (n mod 10) = digit_char (m mod 10)"
        by (simp_all add: show_nat_big)
      with n "1.IH" have "n div 10 = m div 10" and "n mod 10 = m mod 10"
        by (auto intro: digit_char_inj)
      then show ?thesis by (metis div_mult_mod_eq)
    qed
  qed
qed

lemma dash_split:
  "CHR ''-'' \<notin> set a \<Longrightarrow> CHR ''-'' \<notin> set b \<Longrightarrow> a @ CHR ''-'' # x = b @ CHR ''-'' # y
   \<Longrightarrow> a = b \<and> x = y"
proof (induction a arbitrary: b)
  case Nil
  then show ?case by (cases b) auto
next
  case (Cons c a)
  then show ?case by (cases b) auto
qed

lemma dash_split_end:
  assumes "CHR ''-'' \<notin> set a" and "CHR ''-'' \<notin> set b" and "x @ CHR ''-'' # a = y @ CHR ''-'' # b"
  shows "x = y \<and> a = b"
proof -
  from assms(3) have "rev (x @ CHR ''-'' # a) = rev (y @ CHR ''-'' # b)" by simp
  then have "rev a @ CHR ''-'' # rev x = rev b @ CHR ''-'' # rev y" by simp
  with assms(1,2) have "rev a = rev b \<and> rev x = rev y"
    by (intro dash_split) simp_all
  then show ?thesis by simp
qed

lemma shapeKey_inj:
  assumes "CHR ''-'' \<notin> set kind" and "CHR ''-'' \<notin> set kind'"
    and "shapeKey kind slideIndex rest = shapeKey kind' slideIndex' rest'"
  shows "kind = kind' \<and> slideIndex = slideIndex' \<and> rest = rest'"
proof -
  from assms(3) have "kind @ CHR ''-'' # (show_nat slideIndex @ CHR ''-'' # rest)
      = kind' @ CHR ''-'' # (show_nat slideIndex' @ CHR ''-'' # rest')"
    by (simp add: shapeKey_def createShapeId_def)
  from dash_split [OF assms(1,2) this] have k: "kind = kind'"
    and r: "show_nat slideIndex @ CHR ''-'' # rest = show_nat slideIndex' @ CHR ''-'' # rest'"
    by simp_all
  from dash_split [OF show_nat_no_dash show_nat_no_dash r]
  have "show_nat slideIndex = show_nat slideIndex'" and "rest = rest'" by simp_all
  with k show_nat_inj show ?thesis by blast
qed

lemma frameKey_inj: "frameKey i = frameKey j \<Longrightarrow> i = j"
  by (auto simp: frameKey_def createShapeId_def dest: show_nat_inj)

lemma frameKey_not_shapeKey:
  assumes "CHR ''-'' \<notin> set kind" and "kind \<noteq> ''slide''"
  shows "frameKey i \<noteq> shapeKey kind slideIndex rest"
proof
  assume "frameKey i = shapeKey kind slideIndex rest"
  then have e: "''slide'' @ CHR ''-'' # (''frame-'' @ show_nat i)
      = kind @ CHR ''-'' # (show_nat slideIndex @ CHR ''-'' # rest)"
    by (simp add: frameKey_def shapeKey_def createShapeId_def)
  have "CHR ''-'' \<notin> set ''slide''" by simp
  from dash_split [OF this assms(1) e] have "''slide'' = kind" by (rule conjunct1)
  with assms(2) show False by simp
qed

lemma cellKey_inj:
  assumes "part = ''bg'' \<or> part = ''text''" and "part' = ''bg'' \<or> part' = ''text''"
    and "cellKey key part r k = cellKey key' part' r' k'"
  shows "key = key' \<and> part = part' \<and> r = r' \<and> k = k'"
proof -
  from assms(3) have "(key @ ''-cell-'' @ part @ ''-'' @ show_nat r) @ CHR ''-'' # show_nat k
      = (key' @ ''-cell-'' @ part' @ ''-'' @ show_nat r') @ CHR ''-'' # show_nat k'"
    by (simp add: cellKey_def)
  from dash_split_end [OF show_nat_no_dash show_nat_no_dash this]
  have a: "key @ ''-cell-'' @ part @ ''-'' @ show_nat r = key' @ ''-cell-'' @ part' @ ''-'' @ show_nat r'"
    and k: "show_nat k = show_nat k'"
    by simp_all
  from a have "(key @ ''-cell-'' @ part) @ CHR ''-'' # show_nat r
      = (key' @ ''-cell-'' @ part') @ CHR ''-'' # show_nat r'"
    by simp
  from dash_split_end [OF show_nat_no_dash show_nat_no_dash this]
  have b: "key @ ''-cell-'' @ part = key' @ ''-cell-'' @ part'"
    and r: "show_nat r = show_nat r'"
    by simp_all
  from b have c: "(key @ ''-cell'') @ CHR ''-'' # part = (key' @ ''-cell'') @ CHR ''-'' # part'"
    by simp
  have "CHR ''-'' \<notin> set part" "CHR ''-'' \<notin> set part'"
    using assms(1,2) by auto
  from dash_split_end [OF this c] have "key = key'" and "part = part'" by simp_all
  with k r show_nat_inj show ?thesis by blast
qed

lemma id_form_kind:
  assumes "id_form tk kind rest"
  shows "CHR ''-'' \<notin> set kind \<and> kind \<noteq> ''slide''"
proof -
  from assms have "kind = ''text'' \<or> kind = ''shape'' \<or> kind = ''image''
      \<or> kind = ''placeholder'' \<or> kind = ''table''"
    unfolding id_form_def by blast
  then show ?thesis by auto
qed

lemma id_form_inj:
  assumes "id_form tk kind rest" and "id_form tk' kind rest"
  shows "tk = tk'"
proof -
  have t: "fst tk = fst tk'"
    using assms unfolding id_form_def by auto
  have "snd tk = snd tk'"
  proof (cases "kind = ''table''")
    case True
    from assms(1) True obtain part r k where
      p: "part = ''bg'' \<or> part = ''text''" and e: "rest = cellKey (snd tk) part r k"
      unfolding id_form_def by auto
    from assms(2) True obtain part' r' k' where
      p': "part' = ''bg'' \<or> part' = ''text''" and e': "rest = cellKey (snd tk') part' r' k'"
      unfolding id_form_def by auto
    from e e' have "cellKey (snd tk) part r k = cellKey (snd tk') part' r' k'" by simp
    from cellKey_inj [OF p p' this] show ?thesis by simp
  next
    case False
    with assms show ?thesis unfolding id_form_def by auto
  qed
  with t show ?thesis by (simp add: prod_eq_iff)
qed

lemma component_ids_disjoint:
  assumes "slideIndex \<noteq> slideIndex' \<or> tk \<noteq> tk'"
  shows "component_ids slideIndex tk \<inter> component_ids slideIndex' tk' = {}"
proof (rule ccontr)
  assume "component_ids slideIndex tk \<inter> component_ids slideIndex' tk' \<noteq> {}"
  then obtain x where "x \<in> component_ids slideIndex tk" and "x \<in> component_ids slideIndex' tk'"
    by blast
  then obtain kind rest kind' rest' where
    x: "x = shapeKey kind slideIndex rest" and f: "id_form tk kind rest"
    and x': "x = shapeKey kind' slideIndex' rest'" and f': "id_form tk' kind' rest'"
    unfolding component_ids_def by blast
  from x x' have e: "shapeKey kind slideIndex rest = shapeKey kind' slideIndex' rest'" by simp
  from id_form_kind [OF f] id_form_kind [OF f']
  have d: "CHR ''-'' \<notin> set kind" "CHR ''-'' \<notin> set kind'" by simp_all
  from shapeKey_inj [OF d e]
  have k: "kind = kind'" and i: "slideIndex = slideIndex'" and r: "rest = rest'" by simp_all
  from f f' k r have "tk = tk'" by (auto intro: id_form_inj)
  with i assms show False by simp
qed

lemma frameKey_not_component:
  "frameKey i \<notin> component_ids slideIndex tk"
proof
  assume "frameKey i \<in> component_ids slideIndex tk"
  then obtain kind rest where x: "frameKey i = shapeKey kind slideIndex rest"
    and f: "id_form tk kind rest"
    unfolding component_ids_def by blast
  from id_form_kind [OF f] have "CHR ''-'' \<notin> set kind" "kind \<noteq> ''slide''" by simp_all
  from frameKey_not_shapeKey [OF this] x show False by simp
qed

lemma slide_ids_disjoint:
  assumes "i \<noteq> j"
  shows "slide_ids i \<inter> slide_ids j = {}"
proof -
  have "component_ids i tk \<inter> component_ids j tk' = {}" for tk tk'
    using assms by (simp add: component_ids_disjoint)
  moreover have "frameKey i \<noteq> frameKey j"
    using assms frameKey_inj by blast
  ultimately show ?thesis
    unfolding slide_ids_def using frameKey_not_component by blast
qed

lemma distinct_concat_keyed:
  assumes "distinct (map key xs)"
    and "\<And>x. x \<in> set xs \<Longrightarrow> distinct (g x)"
    and "\<And>x. x \<in> set xs \<Longrightarrow> set (g x) \<subseteq> F (key x)"
    and "\<And>a b. a \<noteq> b \<Longrightarrow> F a \<inter> F b = {}"
  shows "distinct (concat (map g xs))"
  using assms(1,2,3)
proof (induction xs)
  case Nil
  show ?case by simp
next
  case (Cons x xs)
  have "set (g x) \<inter> set (g y) = {}" if "y \<in> set xs" for y
  proof -
    from Cons.prems(1) that have "key x \<noteq> key y" by auto
    then have "F (key x) \<inter> F (key y) = {}" by (rule assms(4))
    moreover have "set (g x) \<subseteq> F (key x)" "set (g y) \<subseteq> F (key y)"
      using Cons.prems(3) that by simp_all
    ultimately show ?thesis by blast
  qed
  then have "set (g x) \<inter> set (concat (map g xs)) = {}" by auto
  moreover have "distinct (g x)" using Cons.prems(2) by simp
  moreover have "distinct (concat (map g xs))"
    using Cons.prems by (intro Cons.IH) simp_all
  ultimately show ?case by simp
qed

lemma ids_of_append: "ids_of (xs @ ys) = ids_of xs @ ids_of ys"
  by (simp add: ids_of_def shapes_of_append)

lemma ids_of_concat: "ids_of (concat xss) = concat (map ids_of xss)"
  by (induction xss) (simp_all add: ids_of_append, simp add: ids_of_def)

lemma ids_of_renderTextComponent:
  "ids_of (renderTextComponent c index frameX frameY slideIndex frameId)
   = [shapeKey ''text'' slideIndex (idOrIndex c index)]"
  by (simp add: ids_of_def renderTextComponent_def Let_def shapeKey_def with_parent_fields
        split: prod.splits)

lemma ids_of_renderShapeComponent:
  "ids_of (renderShapeComponent c index frameX frameY slideIndex frameId)
   = [shapeKey ''shape'' slideIndex (idOrIndex c index)]"
  by (simp add: ids_of_def renderShapeComponent_def Let_def shapeKey_def with_parent_fields)

lemma ids_of_renderImageComponent:
  "ids_of (fst (renderImageComponent env c index frameX frameY slideIndex frameId n))
     = [shapeKey ''image'' slideIndex (idOrIndex c index)]
   \<or> ids_of (fst (renderImageComponent env c index frameX frameY slideIndex frameId n))
     = [shapeKey ''placeholder'' slideIndex (idOrIndex c index)]"
  by (simp add: ids_of_def renderImageComponent_def placeholderRect_def Let_def shapeKey_def
        with_parent_fields split: fetched.splits)

lemma ids_of_renderCell:
  "ids_of (renderCell c index slideIndex frameId tableX tableY rowIndex colIndex cell)
   = shapeKey ''table'' slideIndex (cellKey (idOrIndex c index) ''bg'' rowIndex colIndex)
     # (if cell \<noteq> [] \<and> trim cell \<noteq> []
        then [shapeKey ''table'' slideIndex (cellKey (idOrIndex c index) ''text'' rowIndex colIndex)]
        else [])"
  by (simp add: ids_of_def renderCell_def tableCellId_def Let_def shapeKey_def cellKey_def
        with_parent_fields)

lemma ids_of_renderTableComponent:
  "ids_of (renderTableComponent c index frameX frameY slideIndex frameId)
   = concat (map (\<lambda>r. concat (map (\<lambda>k.
       ids_of (renderCell c index slideIndex frameId (place frameId frameX (c_x c))
         (place frameId frameY (c_y c)) (fst r) (fst k) (snd k))) (enumerate 0 (snd r))))
       (enumerate 0 (tableDataOf c)))"
proof (cases "tableDataOf c = []")
  case True
  then show ?thesis by (simp add: renderTableComponent_def ids_of_def)
next
  case False
  then show ?thesis
    by (simp add: renderTableComponent_def Let_def ids_of_concat comp_def case_prod_beta)
qed

lemma distinct_map_fst_enumerate: "distinct (map fst (enumerate n xs))"
  by (simp add: enumerate_eq_zip)

lemma distinct_ids_renderTableComponent:
  "distinct (ids_of (renderTableComponent c index frameX frameY slideIndex frameId))"
proof -
  let ?key = "idOrIndex c index"
  let ?cell = "\<lambda>r k. ids_of (renderCell c index slideIndex frameId (place frameId frameX (c_x c))
         (place frameId frameY (c_y c)) r (fst k) (snd k))"
  let ?F = "\<lambda>r k. {shapeKey ''table'' slideIndex (cellKey ?key part r k) | part.
                   part = ''bg'' \<or> part = ''text''}"
  let ?R = "\<lambda>r. \<Union>k. ?F r k"
  have t: "CHR ''-'' \<notin> set ''table''" by simp
  have inj: "part = part' \<and> r = r' \<and> k = k'"
    if "shapeKey ''table'' slideIndex (cellKey ?key part r k)
        = shapeKey ''table'' slideIndex (cellKey ?key part' r' k')"
      and "part = ''bg'' \<or> part = ''text''" and "part' = ''bg'' \<or> part' = ''text''"
    for part part' r r' k k'
  proof -
    from shapeKey_inj [OF t t that(1)]
    have "cellKey ?key part r k = cellKey ?key part' r' k'" by simp
    from cellKey_inj [OF that(2,3) this] show ?thesis by simp
  qed
  have cell_sub: "set (?cell r k) \<subseteq> ?F r (fst k)" for r k
    by (auto simp: ids_of_renderCell)
  have cell_dist: "distinct (?cell r k)" for r k
  proof -
    have "shapeKey ''table'' slideIndex (cellKey ?key ''bg'' r (fst k))
        \<noteq> shapeKey ''table'' slideIndex (cellKey ?key ''text'' r (fst k))"
      using inj [of "''bg''" r "fst k" "''text''" r "fst k"] by auto
    then show ?thesis by (simp add: ids_of_renderCell)
  qed
  have F_disj: "?F r a \<inter> ?F r b = {}" if "a \<noteq> b" for r a b
    using that inj by blast
  have row_dist: "distinct (concat (map (?cell r) (enumerate 0 row)))" for r row
  proof (rule distinct_concat_keyed [where key = fst and F = "?F r"])
    show "distinct (map fst (enumerate 0 row))"
      by (rule distinct_map_fst_enumerate)
    show "distinct (?cell r x)" for x
      by (rule cell_dist)
    show "set (?cell r x) \<subseteq> ?F r (fst x)" for x
      by (rule cell_sub)
    show "?F r a \<inter> ?F r b = {}" if "a \<noteq> b" for a b
      using that by (rule F_disj)
  qed
  have row_sub: "set (concat (map (?cell r) (enumerate 0 row))) \<subseteq> ?R r" for r row
    using cell_sub by fastforce
  have R_disj: "?R a \<inter> ?R b = {}" if "a \<noteq> b" for a b
    using that inj by blast
  have "distinct (concat (map (\<lambda>r. concat (map (?cell (fst r)) (enumerate 0 (snd r))))
          (enumerate 0 (tableDataOf c))))"
  proof (rule distinct_concat_keyed [where key = fst and F = ?R])
    show "distinct (map fst (enumerate 0 (tableDataOf c)))"
      by (rule distinct_map_fst_enumerate)
    show "distinct (concat (map (?cell (fst x)) (enumerate 0 (snd x))))" for x
      by (rule row_dist)
    show "set (concat (map (?cell (fst x)) (enumerate 0 (snd x)))) \<subseteq> ?R (fst x)" for x
      by (rule row_sub)
    show "?R a \<inter> ?R b = {}" if "a \<noteq> b" for a b
      using that by (rule R_disj)
  qed
  then show ?thesis
    by (simp only: ids_of_renderTableComponent)
qed

lemma component_ids_I: "id_form tk kind rest \<Longrightarrow> shapeKey kind slideIndex rest \<in> component_ids slideIndex tk"
  unfolding component_ids_def by blast

lemma ids_renderTableComponent_sub:
  assumes "c_type c = ''table''"
  shows "set (ids_of (renderTableComponent c index frameX frameY slideIndex frameId))
         \<subseteq> component_ids slideIndex (c_type c, idOrIndex c index)"
proof
  fix x
  assume "x \<in> set (ids_of (renderTableComponent c index frameX frameY slideIndex frameId))"
  then obtain d where d: "d \<in> set (shapes_of (renderTableComponent c index frameX frameY slideIndex frameId))"
    and x: "x = d_id d"
    by (auto simp: ids_of_def)
  from shapes_of_renderTable_mem [OF d] obtain r k cell where
    "d \<in> set (shapes_of (renderCell c index slideIndex frameId (place frameId frameX (c_x c))
             (place frameId frameY (c_y c)) r k cell))"
    by blast
  with x have "x \<in> set (ids_of (renderCell c index slideIndex frameId (place frameId frameX (c_x c))
             (place frameId frameY (c_y c)) r k cell))"
    by (simp add: ids_of_def)
  then have "x = shapeKey ''table'' slideIndex (cellKey (idOrIndex c index) ''bg'' r k)
      \<or> x = shapeKey ''table'' slideIndex (cellKey (idOrIndex c index) ''text'' r k)"
    by (auto simp: ids_of_renderCell split: if_splits)
  moreover have "id_form (c_type c, idOrIndex c index) ''table'' (cellKey (idOrIndex c index) part r k)"
    if "part = ''bg'' \<or> part = ''text''" for part
    using that assms unfolding id_form_def by auto
  ultimately show "x \<in> component_ids slideIndex (c_type c, idOrIndex c index)"
    by (auto intro: component_ids_I)
qed

lemma ids_renderComponent:
  "distinct (ids_of (fst (renderComponent env c index frameX frameY slideIndex frameId n)))
   \<and> set (ids_of (fst (renderComponent env c index frameX frameY slideIndex frameId n)))
     \<subseteq> component_ids slideIndex (c_type c, idOrIndex c index)"
proof -
  let ?tk = "(c_type c, idOrIndex c index)"
  consider (is_text) "c_type c = ''text''" | (is_shape) "c_type c = ''shape''"
    | (is_image) "c_type c = ''image''" | (is_table) "c_type c = ''table''"
    | (other) "c_type c \<noteq> ''text''" "c_type c \<noteq> ''shape''" "c_type c \<noteq> ''image''"
        "c_type c \<noteq> ''table''"
    by blast
  then show ?thesis
  proof cases
    case is_text
    then have "id_form ?tk ''text'' (idOrIndex c index)" by (simp add: id_form_def)
    then have "shapeKey ''text'' slideIndex (idOrIndex c index) \<in> component_ids slideIndex ?tk"
      by (rule component_ids_I)
    with is_text show ?thesis
      by (simp add: renderComponent_def ids_of_renderTextComponent)
  next
    case is_shape
    then have "id_form ?tk ''shape'' (idOrIndex c index)" by (simp add: id_form_def)
    then have "shapeKey ''shape'' slideIndex (idOrIndex c index) \<in> component_ids slideIndex ?tk"
      by (rule component_ids_I)
    with is_shape show ?thesis
      by (simp add: renderComponent_def ids_of_renderShapeComponent)
  next
    case is_image
    then have "id_form ?tk ''image'' (idOrIndex c index)"
      and "id_form ?tk ''placeholder'' (idOrIndex c index)" by (simp_all add: id_form_def)
    then have "shapeKey ''image'' slideIndex (idOrIndex c index) \<in> component_ids slideIndex ?tk"
      and "shapeKey ''placeholder'' slideIndex (idOrIndex c index) \<in> component_ids slideIndex ?tk"
      by (auto intro: component_ids_I)
    moreover have "renderComponent env c index frameX frameY slideIndex frameId n
        = renderImageComponent env c index frameX frameY slideIndex frameId n"
      using is_image by (simp add: renderComponent_def)
    ultimately show ?thesis
      using ids_of_renderImageComponent [of env c index frameX frameY slideIndex frameId n]
      by auto
  next
    case is_table
    then have "renderComponent env c index frameX frameY slideIndex frameId n
        = (renderTableComponent c index frameX frameY slideIndex frameId, n)"
      by (simp add: renderComponent_def)
    with is_table show ?thesis
      using ids_renderTableComponent_sub [OF is_table] distinct_ids_renderTableComponent
      by simp
  next
    case other
    then show ?thesis
      by (simp add: renderComponent_def ids_of_def)
  qed
qed

lemma ids_renderFrom:
  assumes "distinct (map (\<lambda>(index, c). (c_type c, idOrIndex c index)) (enumerate start cs))"
  shows "distinct (ids_of (fst (renderFrom env cs start frameX frameY slideIndex frameId n)))
   \<and> set (ids_of (fst (renderFrom env cs start frameX frameY slideIndex frameId n)))
     \<subseteq> (\<Union>tk \<in> set (map (\<lambda>(index, c). (c_type c, idOrIndex c index)) (enumerate start cs)).
           component_ids slideIndex tk)"
  using assms
proof (induction cs arbitrary: start n)
  case Nil
  show ?case by (simp add: ids_of_def)
next
  case (Cons c cs)
  let ?keys = "map (\<lambda>(index, c). (c_type c, idOrIndex c index)) (enumerate (Suc start) cs)"
  let ?tk = "(c_type c, idOrIndex c start)"
  obtain a m where r: "renderComponent env c start frameX frameY slideIndex frameId n = (a, m)"
    by (cases "renderComponent env c start frameX frameY slideIndex frameId n")
  obtain b k where s: "renderFrom env cs (Suc start) frameX frameY slideIndex frameId m = (b, k)"
    by (cases "renderFrom env cs (Suc start) frameX frameY slideIndex frameId m")
  from Cons.prems have notin: "?tk \<notin> set ?keys" and dk: "distinct ?keys"
    by simp_all
  from ids_renderComponent [of env c start frameX frameY slideIndex frameId n] r
  have a: "distinct (ids_of a)" "set (ids_of a) \<subseteq> component_ids slideIndex ?tk"
    by simp_all
  from Cons.IH [OF dk, of m] s
  have b: "distinct (ids_of b)" "set (ids_of b) \<subseteq> (\<Union>tk \<in> set ?keys. component_ids slideIndex tk)"
    by simp_all
  have "component_ids slideIndex ?tk \<inter> component_ids slideIndex tk = {}" if "tk \<in> set ?keys" for tk
    using that notin by (intro component_ids_disjoint) auto
  with a(2) b(2) have disj: "set (ids_of a) \<inter> set (ids_of b) = {}"
    by blast
  have e: "fst (renderFrom env (c # cs) start frameX frameY slideIndex frameId n) = a @ b"
    by (simp add: r s)
  have k: "set (map (\<lambda>(index, c). (c_type c, idOrIndex c index)) (enumerate start (c # cs)))
      = insert ?tk (set ?keys)"
    by simp
  show ?case
    unfolding e k ids_of_append using a b disj by auto
qed

lemma ids_drawComponentsInFrame:
  assumes "distinct (component_keys components)"
  shows "distinct (ids_of (fst (drawComponentsInFrame env components frameX frameY slideIndex frameId n)))
   \<and> set (ids_of (fst (drawComponentsInFrame env components frameX frameY slideIndex frameId n)))
     \<subseteq> (\<Union>tk. component_ids slideIndex tk)"
proof -
  from assms have "distinct (map (\<lambda>(index, c). (c_type c, idOrIndex c index))
      (enumerate 0 (sortedComponents components)))"
    by (simp add: component_keys_def)
  from ids_renderFrom [OF this, of env frameX frameY slideIndex frameId n]
  show ?thesis
    unfolding drawComponentsInFrame_def by blast
qed

lemma ids_drawFrom:
  assumes "\<forall>s \<in> set slides. distinct (component_keys (sl_components s))"
  shows "distinct (ids_of (fst (drawFrom env frameSize slides start n)))
   \<and> set (ids_of (fst (drawFrom env frameSize slides start n))) \<subseteq> (\<Union>i \<in> {start..}. slide_ids i)"
  using assms
proof (induction slides arbitrary: start n)
  case Nil
  show ?case by (simp add: ids_of_def)
next
  case (Cons s slides)
  let ?x = "real (start mod 4) * (fst frameSize + 200) + 50"
  let ?y = "real (start div 4) * (snd frameSize + 200) + 50"
  let ?fid = "createShapeId (''slide-frame-'' @ show_nat start)"
  let ?frame = "\<lparr> d_id = ?fid, d_type = KFrame, d_x = Fin ?x, d_y = Fin ?y,
            d_rotation = None, d_parentId = None,
            d_props = FrameProps (Fin (fst frameSize)) (Fin (snd frameSize)) (frameName s) \<rparr>"
  obtain a m where r: "drawComponentsInFrame env (sl_components s) ?x ?y start (Some ?fid) n = (a, m)"
    by (cases "drawComponentsInFrame env (sl_components s) ?x ?y start (Some ?fid) n")
  obtain b k where t: "drawFrom env frameSize slides (Suc start) m = (b, k)"
    by (cases "drawFrom env frameSize slides (Suc start) m")
  have e: "fst (drawFrom env frameSize (s # slides) start n) = CreateShape ?frame # a @ b"
    by (simp only: drawFrom.simps Let_def r t prod.case fst_conv)
  have ids: "ids_of (CreateShape ?frame # a @ b) = frameKey start # ids_of a @ ids_of b"
    by (simp add: ids_of_def shapes_of_append frameKey_def)
  from Cons.prems have ds: "distinct (component_keys (sl_components s))"
    and rest: "\<forall>s \<in> set slides. distinct (component_keys (sl_components s))"
    by simp_all
  from ids_drawComponentsInFrame [OF ds, of env ?x ?y start "Some ?fid" n] r
  have a: "distinct (ids_of a)" "set (ids_of a) \<subseteq> (\<Union>tk. component_ids start tk)"
    by simp_all
  from Cons.IH [OF rest, of "Suc start" m] t
  have b: "distinct (ids_of b)" "set (ids_of b) \<subseteq> (\<Union>i \<in> {Suc start..}. slide_ids i)"
    by simp_all
  have fa: "frameKey start \<notin> set (ids_of a)"
    using a(2) frameKey_not_component by blast
  have here: "insert (frameKey start) (set (ids_of a)) \<subseteq> slide_ids start"
    using a(2) unfolding slide_ids_def by blast
  have "slide_ids start \<inter> slide_ids i = {}" if "i \<in> {Suc start..}" for i
    using that by (intro slide_ids_disjoint) auto
  with b(2) have there: "slide_ids start \<inter> set (ids_of b) = {}"
    by blast
  from here there have fb: "frameKey start \<notin> set (ids_of b)"
    and ab: "set (ids_of a) \<inter> set (ids_of b) = {}"
    by blast+
  have sub: "set (frameKey start # ids_of a @ ids_of b) \<subseteq> (\<Union>i \<in> {start..}. slide_ids i)"
  proof -
    have "slide_ids start \<subseteq> (\<Union>i \<in> {start..}. slide_ids i)" by auto
    moreover have "(\<Union>i \<in> {Suc start..}. slide_ids i) \<subseteq> (\<Union>i \<in> {start..}. slide_ids i)"
      by (rule UN_mono) auto
    ultimately show ?thesis using here b(2) by auto
  qed
  show ?case
    unfolding e ids using a(1) b(1) fa fb ab sub by simp
qed

text \<open>
  C1 (as amended). Every identifier is a function of the shape kind, the slide index and the
  component's id, or its position in the \<open>zIndex\<close>-sorted list when the id is absent or
  empty (and of the cell part, row and column for a table cell). The identifiers of all
  shapes of a run are pairwise different provided that, on every slide, no two components
  have the same type and the same id-or-position key.
\<close>

theorem C1_identifiers:
  assumes "\<forall>s \<in> set slides. distinct (component_keys (sl_components s))"
  shows "distinct (ids_of (drawSlides env slides))
    \<and> ids_of (renderTextComponent c index frameX frameY slideIndex frameId)
        = [createShapeId (''text-'' @ show_nat slideIndex @ ''-'' @ idOrIndex c index)]
    \<and> ids_of (renderShapeComponent c index frameX frameY slideIndex frameId)
        = [createShapeId (''shape-'' @ show_nat slideIndex @ ''-'' @ idOrIndex c index)]
    \<and> (ids_of (fst (renderImageComponent env c index frameX frameY slideIndex frameId n))
          = [createShapeId (''image-'' @ show_nat slideIndex @ ''-'' @ idOrIndex c index)]
        \<or> ids_of (fst (renderImageComponent env c index frameX frameY slideIndex frameId n))
          = [createShapeId (''placeholder-'' @ show_nat slideIndex @ ''-'' @ idOrIndex c index)])
    \<and> ids_of (renderCell c index slideIndex frameId tableX tableY rowIndex colIndex cell)
        = createShapeId (''table-'' @ show_nat slideIndex @ ''-'' @ idOrIndex c index
            @ ''-cell-bg-'' @ show_nat rowIndex @ ''-'' @ show_nat colIndex)
          # (if trim cell \<noteq> []
             then [createShapeId (''table-'' @ show_nat slideIndex @ ''-'' @ idOrIndex c index
                     @ ''-cell-text-'' @ show_nat rowIndex @ ''-'' @ show_nat colIndex)]
             else [])
    \<and> idOrIndex c index
        = (case c_id c of None \<Rightarrow> show_nat index
           | Some s \<Rightarrow> if s = [] then show_nat index else s)
    \<and> map d_id (frames_of (drawSlides env slides))
        = map (\<lambda>i. createShapeId (''slide-frame-'' @ show_nat i)) [0..<length slides]"
proof -
  have w: "ids_of (DeleteAllShapes # calls @ [ZoomToFit]) = ids_of calls" for calls
    by (simp add: ids_of_def shapes_of_append)
  have d: "distinct (ids_of (drawSlides env slides))"
    using ids_drawFrom [OF assms, of env "maxSlideSize slides" 0 0]
    by (simp add: drawSlides_def w) (simp add: ids_of_def)
  have t: "ids_of (renderTextComponent c index frameX frameY slideIndex frameId)
        = [createShapeId (''text-'' @ show_nat slideIndex @ ''-'' @ idOrIndex c index)]"
    by (simp add: ids_of_renderTextComponent shapeKey_def)
  have s: "ids_of (renderShapeComponent c index frameX frameY slideIndex frameId)
        = [createShapeId (''shape-'' @ show_nat slideIndex @ ''-'' @ idOrIndex c index)]"
    by (simp add: ids_of_renderShapeComponent shapeKey_def)
  have i: "ids_of (fst (renderImageComponent env c index frameX frameY slideIndex frameId n))
          = [createShapeId (''image-'' @ show_nat slideIndex @ ''-'' @ idOrIndex c index)]
        \<or> ids_of (fst (renderImageComponent env c index frameX frameY slideIndex frameId n))
          = [createShapeId (''placeholder-'' @ show_nat slideIndex @ ''-'' @ idOrIndex c index)]"
    using ids_of_renderImageComponent [of env c index frameX frameY slideIndex frameId n]
    by (simp add: shapeKey_def)
  have tr: "(cell \<noteq> [] \<and> trim cell \<noteq> []) = (trim cell \<noteq> [])"
    by (auto simp: trim_def)
  have cl: "ids_of (renderCell c index slideIndex frameId tableX tableY rowIndex colIndex cell)
        = createShapeId (''table-'' @ show_nat slideIndex @ ''-'' @ idOrIndex c index
            @ ''-cell-bg-'' @ show_nat rowIndex @ ''-'' @ show_nat colIndex)
          # (if trim cell \<noteq> []
             then [createShapeId (''table-'' @ show_nat slideIndex @ ''-'' @ idOrIndex c index
                     @ ''-cell-text-'' @ show_nat rowIndex @ ''-'' @ show_nat colIndex)]
             else [])"
    by (simp only: ids_of_renderCell tr) (simp add: shapeKey_def cellKey_def)
  have k: "idOrIndex c index
        = (case c_id c of None \<Rightarrow> show_nat index
           | Some s \<Rightarrow> if s = [] then show_nat index else s)"
    by (simp add: idOrIndex_def truthy_str_def split: option.splits)
  have fr: "map d_id (frames_of (fst (drawFrom env frameSize sl start m)))
      = map (\<lambda>i. createShapeId (''slide-frame-'' @ show_nat i)) [start..<start + length sl]"
    for frameSize sl start m
  proof (induction sl arbitrary: start m)
    case Nil
    show ?case by (simp add: frames_of_Nil)
  next
    case (Cons x sl)
    let ?x = "real (start mod 4) * (fst frameSize + 200) + 50"
    let ?y = "real (start div 4) * (snd frameSize + 200) + 50"
    let ?fid = "createShapeId (''slide-frame-'' @ show_nat start)"
    let ?frame = "\<lparr> d_id = ?fid, d_type = KFrame, d_x = Fin ?x, d_y = Fin ?y,
            d_rotation = None, d_parentId = None,
            d_props = FrameProps (Fin (fst frameSize)) (Fin (snd frameSize)) (frameName x) \<rparr>"
    obtain a m' where r: "drawComponentsInFrame env (sl_components x) ?x ?y start (Some ?fid) m = (a, m')"
      by (cases "drawComponentsInFrame env (sl_components x) ?x ?y start (Some ?fid) m")
    obtain b k where t: "drawFrom env frameSize sl (Suc start) m' = (b, k)"
      by (cases "drawFrom env frameSize sl (Suc start) m'")
    have e: "fst (drawFrom env frameSize (x # sl) start m) = CreateShape ?frame # a @ b"
      by (simp only: drawFrom.simps Let_def r t prod.case fst_conv)
    have fa: "frames_of a = []"
      using frames_of_renderFrom [of env "sortedComponents (sl_components x)" 0 ?x ?y start "Some ?fid" m] r
      by (simp add: drawComponentsInFrame_def)
    have fc: "frames_of (CreateShape ?frame # a @ b) = ?frame # frames_of b"
      using fa by (simp add: frames_of_def shapes_of_append)
    have up: "[start..<start + length (x # sl)] = start # [Suc start..<Suc start + length sl]"
      by (simp add: upt_rec)
    from Cons.IH [of "Suc start" m'] t show ?case
      unfolding e fc up by simp
  qed
  have f: "map d_id (frames_of (drawSlides env slides))
        = map (\<lambda>i. createShapeId (''slide-frame-'' @ show_nat i)) [0..<length slides]"
  proof (cases "slides = []")
    case True
    then show ?thesis by (simp add: drawSlides_def frames_of_Nil)
  next
    case False
    have "frames_of (DeleteAllShapes # calls @ [ZoomToFit]) = frames_of calls" for calls
      by (simp add: frames_of_def shapes_of_append)
    with False fr [of "maxSlideSize slides" slides 0 0] show ?thesis
      by (simp add: drawSlides_def)
  qed
  from d t s i cl k f show ?thesis by blast
qed

theorem C1_identifiers_witness:
  "list_all (\<lambda>s. distinct (component_keys (sl_components s))) imageSlides
   \<and> distinct (ids_of (drawSlides env0 imageSlides))
   \<and> length (ids_of (drawSlides env0 imageSlides)) = 16"
proof -
  have h: "list_all (\<lambda>s. distinct (component_keys (sl_components s))) imageSlides"
    by code_simp
  then have "\<forall>s \<in> set imageSlides. distinct (component_keys (sl_components s))"
    by (simp add: list_all_iff)
  from C1_identifiers [OF this, of env0] have "distinct (ids_of (drawSlides env0 imageSlides))"
    by simp
  moreover have "length (ids_of (drawSlides env0 imageSlides)) = 16"
    by code_simp
  ultimately show ?thesis using h by simp
qed

theorem C1_counterexample:
  "ids_of (drawSlides env0 duplicateSlides)
     = [''shape:slide-frame-0'', ''shape:text-0-dup'', ''shape:text-0-dup'']
   \<and> distinct (shapes_of (drawSlides env0 duplicateSlides))
   \<and> \<not> distinct (ids_of (drawSlides env0 duplicateSlides))"
  by code_simp

end
